theory Spec2Isabelle
  imports Main
begin

section \<open>JavaScript numbers and BigInts\<close>

text \<open>
  The handlers compute with two kinds of numeric values. A BigInt is an unbounded integer
  and is modelled by \<open>int\<close>. A Number is an IEEE-754 binary64 value; a finite one is
  written \<open>Fin m e\<close> and stands for \<open>m * 2 ^ e\<close>. JSON cannot denote NaN, and none of the
  operations below produces one from the other values, so NaN is left out. The sign of
  zero is not kept: every operation used here treats both zeros alike.
\<close>

datatype number = Fin int int | PosInf | NegInf

text \<open>The number of binary digits of a positive integer (0 for the others).\<close>

function nbits :: "int \<Rightarrow> int" where
  "nbits n = (if n \<le> 0 then 0 else 1 + nbits (n div 2))"
  by pat_completeness auto
termination
  by (relation "measure nat") auto

declare nbits.simps [simp del]

text \<open>
  Rounding of the exact value \<open>m * 2 ^ e\<close> to the nearest binary64 value, ties to even:
  at most 53 significant bits, no bit below \<open>2 ^ -1074\<close>, and infinity from \<open>2 ^ 1024\<close> on.
  \<open>round_half_even a k\<close> drops the last \<open>k\<close> bits of \<open>a\<close>.
\<close>

definition round_half_even :: "int \<Rightarrow> nat \<Rightarrow> int" where
  "round_half_even a k =
     (let q = a div 2 ^ k; r = a mod 2 ^ k; h = 2 ^ (k - 1)
      in if h < r \<or> (r = h \<and> odd q) then q + 1 else q)"

definition round53 :: "int \<Rightarrow> int \<Rightarrow> number" where
  "round53 m e =
     (let a = \<bar>m\<bar>;
          k = max (nbits a - 53) (- 1074 - e);
          q = (if k \<le> 0 then a else round_half_even a (nat k));
          e' = (if k \<le> 0 then e else e + k)
      in if 1024 < nbits q + e' then (if m < 0 then NegInf else PosInf)
         else Fin (sgn m * q) e')"

text \<open>\<^verbatim>\<open>x * 1e8\<close>: the exact product (\<open>1e8\<close> is the integer \<open>10 ^ 8\<close>), rounded.\<close>

fun times_1e8 :: "number \<Rightarrow> number" where
  "times_1e8 (Fin m e) = round53 (m * 100000000) e"
| "times_1e8 PosInf = PosInf"
| "times_1e8 NegInf = NegInf"

text \<open>\<^verbatim>\<open>Math.floor(x)\<close>.\<close>

fun Math_floor :: "number \<Rightarrow> number" where
  "Math_floor (Fin m e) = (if 0 \<le> e then Fin m e else Fin (m div 2 ^ nat (- e)) 0)"
| "Math_floor PosInf = PosInf"
| "Math_floor NegInf = NegInf"

text \<open>
  \<^verbatim>\<open>BigInt(x)\<close> for a Number \<open>x\<close>: the integer \<open>x\<close> denotes; a RangeError (here \<open>None\<close>)
  when \<open>x\<close> is not an integer or not finite.
\<close>

fun BigInt :: "number \<Rightarrow> int option" where
  "BigInt (Fin m e) =
     (if 0 \<le> e then Some (m * 2 ^ nat e)
      else if m mod 2 ^ nat (- e) = 0 then Some (m div 2 ^ nat (- e))
      else None)"
| "BigInt PosInf = None"
| "BigInt NegInf = None"

text \<open>\<^verbatim>\<open>Number(n)\<close> for a BigInt \<open>n\<close>: the nearest binary64 value.\<close>

definition Number :: "int \<Rightarrow> number" where
  "Number n = round53 n 0"

text \<open>The comparisons \<^verbatim>\<open>x <= 0\<close> and \<^verbatim>\<open>x < 0\<close> of the validation.\<close>

fun le_zero :: "number \<Rightarrow> bool" where
  "le_zero (Fin m e) = (m \<le> 0)"
| "le_zero PosInf = False"
| "le_zero NegInf = True"

fun lt_zero :: "number \<Rightarrow> bool" where
  "lt_zero (Fin m e) = (m < 0)"
| "lt_zero PosInf = False"
| "lt_zero NegInf = True"

text \<open>
  The integer a finite Number with no fractional part denotes, as a reader of the JSON
  payload sees it. On the other Numbers the integer part is taken, and 0 for an infinity;
  no statement below depends on these.
\<close>

fun int_value :: "number \<Rightarrow> int" where
  "int_value (Fin m e) = (if 0 \<le> e then m * 2 ^ nat e else m div 2 ^ nat (- e))"
| "int_value PosInf = 0"
| "int_value NegInf = 0"

text \<open>
  \<^verbatim>\<open>n.toString()\<close> for a BigInt \<open>n\<close>: the decimal digits, most significant first, after a
  minus sign when \<open>n\<close> is negative.
\<close>

definition digit_char :: "nat \<Rightarrow> char" where
  "digit_char d = ''0123456789'' ! d"

fun nat_toString :: "nat \<Rightarrow> string" where
  "nat_toString n =
     (if n < 10 then [digit_char n] else nat_toString (n div 10) @ [digit_char (n mod 10)])"

declare nat_toString.simps [simp del]

definition BigInt_toString :: "int \<Rightarrow> string" where
  "BigInt_toString n =
     (if n < 0 then CHR ''-'' # nat_toString (nat (- n)) else nat_toString (nat n))"

section \<open>Regular expressions\<close>

text \<open>
  The fragment of JavaScript regular expressions the handlers use, anchored at both ends
  (\<^verbatim>\<open>^...$\<close>, no flags): a sequence of items, each a literal character or a character
  class of ranges with a bounded repetition \<^verbatim>\<open>[...]{lo,hi}\<close>.
\<close>

datatype regex_item = Lit char | Class "(char \<times> char) list" nat nat

definition in_class :: "(char \<times> char) list \<Rightarrow> char \<Rightarrow> bool" where
  "in_class rs c =
     list_ex (\<lambda>(l, h). (of_char l :: nat) \<le> of_char c \<and> (of_char c :: nat) \<le> of_char h) rs"

fun matches :: "regex_item list \<Rightarrow> string \<Rightarrow> bool" where
  "matches [] s = (s = [])"
| "matches (Lit c # r) s = (case s of [] \<Rightarrow> False | x # xs \<Rightarrow> x = c \<and> matches r xs)"
| "matches (Class rs lo hi # r) s =
     list_ex (\<lambda>n. n \<le> length s \<and> list_all (in_class rs) (take n s) \<and> matches r (drop n s))
       [lo ..< Suc hi]"

text \<open>\<^verbatim>\<open>/^kaspa:[a-z0-9]{61,63}$/\<close>\<close>

definition kaspaRegex :: "regex_item list" where
  "kaspaRegex =
     map Lit ''kaspa:'' @ [Class [(CHR ''a'', CHR ''z''), (CHR ''0'', CHR ''9'')] 61 63]"

definition test :: "regex_item list \<Rightarrow> string \<Rightarrow> bool" where
  "test re s = matches re s"

section \<open>Data of the handlers\<close>

text \<open>
  The body of a request. A field that is absent is \<open>None\<close>. The addresses and the key are
  strings, the amount and the fee are Numbers.
\<close>

record request =
  senderAddress :: "string option"
  recipientAddress :: "string option"
  amount :: "number option"
  fee :: "number option"
  privateKey :: "string option"

text \<open>
  An entry of the ledger's answer: \<^verbatim>\<open>outpoint.transactionId\<close>, \<^verbatim>\<open>outpoint.index\<close>,
  \<^verbatim>\<open>utxoEntry.amount\<close> (an integer, whatever its JSON form),
  \<^verbatim>\<open>utxoEntry.scriptPublicKey.scriptPublicKey\<close>.
\<close>

record utxo =
  utxo_transactionId :: string
  utxo_index :: nat
  utxo_amount :: int
  utxo_scriptPublicKey :: string

text \<open>The library's transaction objects, as the values the handlers store in them.\<close>

record tx_output =
  script :: string
  satoshis :: number

record tx_input =
  prevTxId :: string
  outputIndex :: nat
  in_script :: string
  sequenceNumber :: nat
  in_output :: tx_output

record transaction =
  tx_version :: nat
  tx_inputs :: "tx_input list"
  tx_outputs :: "tx_output list"

text \<open>The JSON sent to the broadcast endpoint.\<close>

record previousOutpoint =
  transactionId :: string
  index :: nat

record signed_input =
  previousOutpoint :: previousOutpoint
  signatureScript :: string
  sequence :: nat
  sigOpCount :: nat

record scriptPublicKey =
  spk_version :: nat
  spk_scriptPublicKey :: string

record payload_output =
  out_amount :: number
  out_scriptPublicKey :: scriptPublicKey

record rest_transaction =
  rest_version :: nat
  rest_inputs :: "signed_input list"
  rest_outputs :: "payload_output list"
  lockTime :: nat
  subnetworkId :: string

record restApiJson =
  rest_transaction :: rest_transaction
  allowOrphan :: bool

text \<open>JSON values the handlers pass on without looking at them.\<close>

datatype json = JNull | JNumber number | JString string

record txResponse =
  resp_transactionId :: json
  resp_rawTransaction :: json

record success =
  status :: string
  ok_transactionId :: json
  ok_rawTransaction :: json
  transferredAmount :: string
  chargedAmount :: string
  walletBalance :: json

text \<open>
  What a handler answers when it does not succeed: status 400 with an error message, or
  status 500 (the \<^verbatim>\<open>catch\<close> block, for any exception). A response is such a failure
  (\<open>Inl\<close>) or the success body (\<open>Inr\<close>).
\<close>

datatype failure = Error400 string | Error500

type_synonym response = "failure + success"

text \<open>
  The world outside the handlers: the classes of the library, its signing, and the three
  network calls. A library call that throws and a network call that fails are \<open>None\<close>,
  and \<open>False\<close> for the constructors:
  \<^item> \<open>PrivateKey k\<close>: \<^verbatim>\<open>new PrivateKey(k)\<close> returns;
  \<^item> \<open>addressScript a\<close>: \<^verbatim>\<open>new Script(new Address(a)).toBuffer().toString('hex')\<close>;
  \<^item> \<open>Output_ok s n\<close>: \<^verbatim>\<open>new Transaction.Output({script: s, satoshis: n})\<close> returns;
  \<^item> \<open>Input_ok t i s\<close>: \<^verbatim>\<open>new Transaction.Input.PublicKey({...})\<close> returns for \<^verbatim>\<open>prevTxId: t\<close>,
    \<^verbatim>\<open>outputIndex: i\<close>, \<^verbatim>\<open>script: s\<close> and an output that has been made;
  \<^item> \<open>prevTxIdHex t\<close>: what \<^verbatim>\<open>input.prevTxId.toString("hex")\<close> gives for an input made
    with \<^verbatim>\<open>prevTxId: t\<close> (the library keeps the identifier as bytes);
  \<^item> \<open>getSignature sk tx i\<close>: the signature of
    \<^verbatim>\<open>input.getSignatures(tx, sk, i, ...)[0]\<close> in hexadecimal.
\<close>

record env =
  PrivateKey :: "string \<Rightarrow> bool"
  getUtxos :: "string \<Rightarrow> utxo list option"
  addressScript :: "string \<Rightarrow> string option"
  Output_ok :: "string \<Rightarrow> number \<Rightarrow> bool"
  Input_ok :: "string \<Rightarrow> nat \<Rightarrow> string \<Rightarrow> bool"
  prevTxIdHex :: "string \<Rightarrow> string"
  getSignature :: "string \<Rightarrow> transaction \<Rightarrow> nat \<Rightarrow> string option"
  postTransaction :: "restApiJson \<Rightarrow> txResponse option"
  getBalance :: "string \<Rightarrow> json option"

text \<open>
  What a handler does to the outside, in order: the construction of the key, the network
  calls, the signing of an input, and a line \<^verbatim>\<open>console.log(label, value)\<close>, whose value is
  an integer here. The \<^verbatim>\<open>console.error\<close> of the \<^verbatim>\<open>catch\<close> block belongs to the answer 500
  and is no event of its own.
\<close>

datatype event =
    NewPrivateKey string
  | GetUtxos string
  | Sign nat
  | PostTransaction restApiJson
  | GetBalance string
  | ConsoleLog string int

text \<open>
  A computation of a handler so far: what it did to the outside, and either the failure
  it has already answered (\<open>Inl\<close>: an early \<^verbatim>\<open>return\<close>, or the \<^verbatim>\<open>catch\<close> block after a
  throw) or the value it goes on with.
\<close>

type_synonym 'a step = "event list \<times> (failure + 'a)"

definition andThen :: "'a step \<Rightarrow> ('a \<Rightarrow> 'b step) \<Rightarrow> 'b step" where
  "andThen m f =
     (case m of
        (t, Inl r) \<Rightarrow> (t, Inl r)
      | (t, Inr x) \<Rightarrow> (case f x of (t', y) \<Rightarrow> (t @ t', y)))"

text \<open>A call that may throw; inside the \<^verbatim>\<open>try\<close> block a throw is answered with status 500.\<close>

definition lib :: "'a option \<Rightarrow> 'a step" where
  "lib x = (case x of None \<Rightarrow> ([], Inl Error500) | Some v \<Rightarrow> ([], Inr v))"

definition call :: "event \<Rightarrow> 'a option \<Rightarrow> 'a step" where
  "call ev x = (case x of None \<Rightarrow> ([ev], Inl Error500) | Some v \<Rightarrow> ([ev], Inr v))"

section \<open>Validation\<close>

text \<open>
  Steps 1 to 4 of \<^verbatim>\<open>createTransaction\<close>, the same text in both files: required
  parameters (\<^verbatim>\<open>!x\<close> holds of an absent and of an empty string), address format,
  recipient against sender, amount and fee.
\<close>

definition validate ::
  "request \<Rightarrow> failure + (string \<times> string \<times> number \<times> number \<times> string)" where
  "validate req =
     (case (senderAddress req, recipientAddress req, amount req, fee req, privateKey req) of
        (Some sender, Some recipient, Some amt, Some f, Some key) \<Rightarrow>
          if sender = [] \<or> recipient = [] \<or> key = []
          then Inl (Error400 ''Missing required parameters'')
          else if \<not> test kaspaRegex sender
          then Inl (Error400 ''Invalid sender address format'')
          else if \<not> test kaspaRegex recipient
          then Inl (Error400 ''Invalid recipient address format'')
          else if recipient = sender
          then Inl (Error400 ''Recipient address cannot equal sender address'')
          else if le_zero amt
          then Inl (Error400 ''Transfer amount must be greater than 0'')
          else if lt_zero f
          then Inl (Error400 ''Fee cannot be negative'')
          else Inr (sender, recipient, amt, f, key)
      | _ \<Rightarrow> Inl (Error400 ''Missing required parameters''))"

text \<open>\<^verbatim>\<open>BigInt(Math.floor(x * 1e8))\<close>\<close>

definition toSompi :: "number \<Rightarrow> int option" where
  "toSompi x = BigInt (Math_floor (times_1e8 x))"

section \<open>The handler with several inputs\<close>

text \<open>
  \<^verbatim>\<open>POST /createTransaction\<close> of \<^verbatim>\<open>src/unnamed/part_000\<close>, in the order of its text.

  The loop over \<^verbatim>\<open>utxos\<close>: each entry is pushed and added before the sum is compared, and
  the loop breaks at the first sum that reaches \<^verbatim>\<open>totalNeeded\<close>.
\<close>

fun selectLoop :: "utxo list \<Rightarrow> utxo list \<Rightarrow> int \<Rightarrow> int \<Rightarrow> utxo list \<times> int" where
  "selectLoop [] inputs inputSum totalNeeded = (inputs, inputSum)"
| "selectLoop (u # us) inputs inputSum totalNeeded =
     (if totalNeeded \<le> inputSum + utxo_amount u
      then (inputs @ [u], inputSum + utxo_amount u)
      else selectLoop us (inputs @ [u]) (inputSum + utxo_amount u) totalNeeded)"

text \<open>The loop and the test after it; \<open>None\<close> is the answer "Insufficient UTXOs".\<close>

definition selectInputs :: "utxo list \<Rightarrow> int \<Rightarrow> (utxo list \<times> int) option" where
  "selectInputs utxos totalNeeded =
     (case selectLoop utxos [] 0 totalNeeded of
        (inputs, inputSum) \<Rightarrow>
          if inputSum < totalNeeded then None else Some (inputs, inputSum))"

text \<open>
  \<^verbatim>\<open>new Transaction.Output({script, satoshis})\<close> and
  \<^verbatim>\<open>new Transaction.Input.PublicKey({...})\<close>: the objects keep what they are given, when
  the library takes it; the output of an input is made before the input. A script is kept
  as its hexadecimal string, which \<^verbatim>\<open>toBuffer().toString("hex")\<close> gives back; the
  identifier of the spent transaction is kept as the hexadecimal string the library
  renders its bytes with. \<open>addInputs\<close> is the \<^verbatim>\<open>forEach\<close> over the selected entries.
\<close>

definition newOutput :: "env \<Rightarrow> string \<Rightarrow> number \<Rightarrow> tx_output option" where
  "newOutput env s n = (if Output_ok env s n then Some \<lparr>script = s, satoshis = n\<rparr> else None)"

definition newInput :: "env \<Rightarrow> utxo \<Rightarrow> tx_input option" where
  "newInput env u =
     Option.bind (newOutput env (utxo_scriptPublicKey u) (Number (utxo_amount u))) (\<lambda>out.
       if Input_ok env (utxo_transactionId u) (utxo_index u) (utxo_scriptPublicKey u)
       then Some \<lparr>prevTxId = prevTxIdHex env (utxo_transactionId u), outputIndex = utxo_index u,
                  in_script = utxo_scriptPublicKey u, sequenceNumber = 0, in_output = out\<rparr>
       else None)"

fun addInputs :: "env \<Rightarrow> utxo list \<Rightarrow> tx_input list option" where
  "addInputs env [] = Some []"
| "addInputs env (u # us) =
     (case newInput env u of
        None \<Rightarrow> None
      | Some i \<Rightarrow> map_option ((#) i) (addInputs env us))"

text \<open>An output paying \<open>n\<close> to the address \<open>a\<close>.\<close>

definition payTo :: "env \<Rightarrow> string \<Rightarrow> number \<Rightarrow> tx_output option" where
  "payTo env a n = Option.bind (addressScript env a) (\<lambda>s. newOutput env s n)"

text \<open>
  \<^verbatim>\<open>BigInt(Math.floor(0.02 * 1e8))\<close>. The literal \<^verbatim>\<open>0.02\<close> is the binary64 value
  \<open>5764607523034235 * 2 ^ -58\<close>.
\<close>

definition dustThreshold :: "int option" where
  "dustThreshold = toSompi (Fin 5764607523034235 (- 58))"

text \<open>
  The signing of the inputs, in order: the signature of input \<open>i\<close> is
  \<^verbatim>\<open>input.getSignatures(tx, sk, i, ...)[0].signature\<close> in hexadecimal, and the script is
  \<^verbatim>\<open>`41${signature}01`\<close>.
\<close>

definition signedInput :: "tx_input \<Rightarrow> string \<Rightarrow> signed_input" where
  "signedInput x signature =
     \<lparr>previousOutpoint = \<lparr>transactionId = prevTxId x, index = outputIndex x\<rparr>,
      signatureScript = ''41'' @ signature @ ''01'',
      sequence = sequenceNumber x,
      sigOpCount = 1\<rparr>"

fun signInputs ::
  "env \<Rightarrow> string \<Rightarrow> transaction \<Rightarrow> nat \<Rightarrow> tx_input list \<Rightarrow> signed_input list step" where
  "signInputs env sk tx i [] = ([], Inr [])"
| "signInputs env sk tx i (x # xs) =
     andThen (call (Sign i) (getSignature env sk tx i)) (\<lambda>signature.
     andThen (signInputs env sk tx (Suc i) xs) (\<lambda>rest.
     ([], Inr (signedInput x signature # rest))))"

text \<open>The JSON of an output and of the whole transaction.\<close>

definition payloadOutput :: "tx_output \<Rightarrow> payload_output" where
  "payloadOutput out =
     \<lparr>out_amount = satoshis out,
      out_scriptPublicKey = \<lparr>spk_version = 0, spk_scriptPublicKey = script out\<rparr>\<rparr>"

definition mkRestApiJson :: "nat \<Rightarrow> signed_input list \<Rightarrow> payload_output list \<Rightarrow> restApiJson" where
  "mkRestApiJson v signedInputs outs =
     \<lparr>rest_transaction =
        \<lparr>rest_version = v, rest_inputs = signedInputs, rest_outputs = outs,
         lockTime = 0, subnetworkId = ''0000000000000000000000000000000000000000''\<rparr>,
      allowOrphan = True\<rparr>"

text \<open>The balance lookup has a \<^verbatim>\<open>try\<close> of its own: a failure gives \<^verbatim>\<open>null\<close>.\<close>

definition balanceOf :: "env \<Rightarrow> string \<Rightarrow> json" where
  "balanceOf env a = (case getBalance env a of None \<Rightarrow> JNull | Some b \<Rightarrow> b)"

text \<open>
  The handler: what it does to the outside, and its response. Amount and fee are
  converted before the key is constructed; the dust threshold is computed where it is
  compared.
\<close>

definition createTransaction :: "env \<Rightarrow> request \<Rightarrow> event list \<times> response" where
  "createTransaction env req = (
     andThen ([], validate req) (\<lambda>(sender, recipient, amt, f, key).
     andThen (lib (toSompi amt)) (\<lambda>amountToSend.
     andThen (lib (toSompi f)) (\<lambda>feeAmount.
     let totalNeeded = amountToSend + feeAmount in
     andThen (call (NewPrivateKey key) (if PrivateKey env key then Some key else None)) (\<lambda>sk.
     andThen (call (GetUtxos sender) (getUtxos env sender)) (\<lambda>utxos.
     case selectInputs utxos totalNeeded of
       None \<Rightarrow> ([], Inl (Error400 ''Insufficient UTXOs for requested amount''))
     | Some (inputs, inputSum) \<Rightarrow>
     andThen (lib (addInputs env inputs)) (\<lambda>txInputs.
     let changeAmount = inputSum - totalNeeded in
     andThen (lib (payTo env recipient (Number amountToSend))) (\<lambda>recipientOut.
     andThen (lib dustThreshold) (\<lambda>dust.
     andThen (if dust \<le> changeAmount
              then lib (map_option (\<lambda>out. [out]) (payTo env sender (Number changeAmount)))
              else ([], Inr [])) (\<lambda>changeOut.
     let tx = \<lparr>tx_version = 0, tx_inputs = txInputs, tx_outputs = recipientOut # changeOut\<rparr> in
     andThen (signInputs env sk tx 0 (tx_inputs tx)) (\<lambda>signedInputs.
     let restApiJson =
           mkRestApiJson (tx_version tx) signedInputs (map payloadOutput (tx_outputs tx)) in
     andThen (call (PostTransaction restApiJson) (postTransaction env restApiJson)) (\<lambda>txResponse.
     ([GetBalance sender],
      Inr \<lparr>status = ''OK'',
                  ok_transactionId = resp_transactionId txResponse,
                  ok_rawTransaction = resp_rawTransaction txResponse,
                  transferredAmount = BigInt_toString amountToSend,
                  chargedAmount = BigInt_toString totalNeeded,
                  walletBalance = balanceOf env sender\<rparr>)))))))))))))"

section \<open>The handler with one input\<close>

text \<open>
  \<^verbatim>\<open>POST /createTransaction\<close> of \<^verbatim>\<open>src/index.js\<close>. The validation is the same; the entry is
  chosen by \<^verbatim>\<open>utxos.find(u => u.utxoEntry.amount >= 100000)\<close>; the amounts are converted
  after the input is made, and four lines are logged; the change output is made without a
  test; every input is signed with index 0; and the payload takes its amounts from the
  BigInts again.
\<close>

definition suitable :: "utxo \<Rightarrow> bool" where
  "suitable u = (100000 \<le> utxo_amount u)"

fun signInputs0 ::
  "env \<Rightarrow> string \<Rightarrow> transaction \<Rightarrow> tx_input list \<Rightarrow> signed_input list step" where
  "signInputs0 env sk tx [] = ([], Inr [])"
| "signInputs0 env sk tx (x # xs) =
     andThen (call (Sign 0) (getSignature env sk tx 0)) (\<lambda>signature.
     andThen (signInputs0 env sk tx xs) (\<lambda>rest.
     ([], Inr (signedInput x signature # rest))))"

definition createTransaction_index :: "env \<Rightarrow> request \<Rightarrow> event list \<times> response" where
  "createTransaction_index env req = (
     andThen ([], validate req) (\<lambda>(sender, recipient, amt, f, key).
     andThen (call (NewPrivateKey key) (if PrivateKey env key then Some key else None)) (\<lambda>sk.
     andThen (call (GetUtxos sender) (getUtxos env sender)) (\<lambda>utxos.
     case find suitable utxos of
       None \<Rightarrow> ([], Inl (Error400 ''No suitable UTXO available''))
     | Some selectedUtxo \<Rightarrow>
     andThen (lib (newInput env selectedUtxo)) (\<lambda>txInput.
     andThen (lib (toSompi amt)) (\<lambda>amountToSend.
     andThen (lib (toSompi f)) (\<lambda>feeAmount.
     let changeAmount = utxo_amount selectedUtxo - amountToSend - feeAmount in
     andThen ([ConsoleLog ''UTXO amount (sompi):'' (utxo_amount selectedUtxo),
               ConsoleLog ''AmountToSend:'' amountToSend,
               ConsoleLog ''FeeAmount:'' feeAmount,
               ConsoleLog ''ChangeAmount:'' changeAmount], Inr ()) (\<lambda>logged.
     andThen (lib (payTo env recipient (Number amountToSend))) (\<lambda>txOutput.
     andThen (lib (payTo env sender (Number changeAmount))) (\<lambda>txChange.
     let tx = \<lparr>tx_version = 0, tx_inputs = [txInput], tx_outputs = [txOutput, txChange]\<rparr> in
     andThen (signInputs0 env sk tx (tx_inputs tx)) (\<lambda>signedInputs.
     let restApiJson = mkRestApiJson (tx_version tx) signedInputs
           [\<lparr>out_amount = Number amountToSend,
             out_scriptPublicKey = \<lparr>spk_version = 0, spk_scriptPublicKey = script txOutput\<rparr>\<rparr>,
            \<lparr>out_amount = Number changeAmount,
             out_scriptPublicKey = \<lparr>spk_version = 0, spk_scriptPublicKey = script txChange\<rparr>\<rparr>] in
     andThen (call (PostTransaction restApiJson) (postTransaction env restApiJson)) (\<lambda>txResponse.
     ([GetBalance sender],
      Inr \<lparr>status = ''OK'',
                  ok_transactionId = resp_transactionId txResponse,
                  ok_rawTransaction = resp_rawTransaction txResponse,
                  transferredAmount = BigInt_toString amountToSend,
                  chargedAmount = BigInt_toString (amountToSend + feeAmount),
                  walletBalance = balanceOf env sender\<rparr>)))))))))))))"

section \<open>Notions of the specification\<close>

text \<open>The sum of the amounts of a list of ledger entries.\<close>

definition psum :: "utxo list \<Rightarrow> int" where
  "psum us = sum_list (map utxo_amount us)"

text \<open>The characters of the class \<^verbatim>\<open>[a-z0-9]\<close>, written out.\<close>

definition lower_alnum :: string where
  "lower_alnum = ''abcdefghijklmnopqrstuvwxyz0123456789''"

text \<open>The sum of the amounts of the outputs of a broadcast payload.\<close>

definition outputSum :: "restApiJson \<Rightarrow> int" where
  "outputSum p = sum_list (map (\<lambda>out. int_value (out_amount out)) (rest_outputs (rest_transaction p)))"

text \<open>
  A decimal string: digits, after an optional minus sign; and a JSON value that is one.
\<close>

definition digit :: "char \<Rightarrow> bool" where
  "digit c = (c \<in> set ''0123456789'')"

definition decimal_string :: "string \<Rightarrow> bool" where
  "decimal_string s =
     (case s of
        [] \<Rightarrow> False
      | c # r \<Rightarrow> if c = CHR ''-'' then r \<noteq> [] \<and> list_all digit r else list_all digit (c # r))"

definition json_decimal_string :: "json \<Rightarrow> bool" where
  "json_decimal_string j = (case j of JString s \<Rightarrow> decimal_string s | _ \<Rightarrow> False)"

text \<open>
  The pattern \<^verbatim>\<open>41<128 hex chars>01\<close> of a signature script, and the number of bytes a
  string of hexadecimal digits stands for.
\<close>

definition hex_digits :: string where
  "hex_digits = ''0123456789abcdef''"

definition signaturePattern :: "regex_item list" where
  "signaturePattern =
     map Lit ''41'' @ [Class [(CHR ''0'', CHR ''9''), (CHR ''a'', CHR ''f'')] 128 128] @ map Lit ''01''"

definition byteLength :: "string \<Rightarrow> nat" where
  "byteLength s = length s div 2"

text \<open>
  The address format in the words of the specification: the prefix, then 61 to 63
  characters of the base-32 alphabet of the network's addresses.
\<close>

definition base32_alphabet :: string where
  "base32_alphabet = ''qpzry9x8gf2tvdw0s3jn54khce6mua7l''"

definition spec_address :: "string \<Rightarrow> bool" where
  "spec_address s =
     (take 6 s = ''kaspa:'' \<and> 61 \<le> length (drop 6 s) \<and> length (drop 6 s) \<le> 63 \<and>
      list_all (\<lambda>c. c \<in> set base32_alphabet) (drop 6 s))"



section \<open>The library's test of an amount\<close>

text \<open>
  The library is not part of the repository. Its \<^verbatim>\<open>Transaction.Output\<close> takes as amount a
  natural number below \<open>2 ^ 53\<close> and throws on every other Number: \<open>safe_natural\<close> are
  these Numbers, and \<open>Output_checked\<close> says of an environment that its library refuses
  the others. The statements below that depend on this test have it as a hypothesis.
  \<open>accepts_entry\<close> says that the library makes an input of a ledger entry.
\<close>

definition safe_natural :: "number \<Rightarrow> bool" where
  "safe_natural n = (case BigInt n of None \<Rightarrow> False | Some k \<Rightarrow> 0 \<le> k \<and> k < 2 ^ 53)"

definition Output_checked :: "env \<Rightarrow> bool" where
  "Output_checked env = (\<forall>s n. Output_ok env s n \<longrightarrow> safe_natural n)"

definition accepts_entry :: "env \<Rightarrow> utxo \<Rightarrow> bool" where
  "accepts_entry env u =
     (Output_ok env (utxo_scriptPublicKey u) (Number (utxo_amount u)) \<and>
      Input_ok env (utxo_transactionId u) (utxo_index u) (utxo_scriptPublicKey u))"

section \<open>Examples\<close>

text \<open>
  Values for the examples below. \<open>addr c\<close> is a string of the accepted pattern made of
  one character, \<open>p2pk c\<close> a script in hexadecimal, \<open>signature0\<close> a signature of 64 bytes.
  In the environment of the examples the sender is \<open>addr q\<close> and the recipient \<open>addr p\<close>:
  the library decodes these two addresses and refuses every other string, it makes
  outputs with their two scripts and the amounts \<open>safe_natural\<close>, and inputs with the
  sender's script and an identifier of 32 bytes, which it renders in lowercase; every key
  is accepted and every signing and broadcast succeeds; the ledger answers \<open>us\<close> for the
  sender, and the balance lookup \<open>bal\<close>.
\<close>

definition addr :: "char \<Rightarrow> string" where
  "addr c = ''kaspa:'' @ replicate 61 c"

definition p2pk :: "char \<Rightarrow> string" where
  "p2pk c = ''20'' @ replicate 64 c @ ''ac''"

definition signature0 :: string where
  "signature0 = replicate 128 CHR ''0''"

definition lower_hex :: "string \<Rightarrow> string" where
  "lower_hex s =
     map (\<lambda>c. if c \<in> set ''ABCDEF'' then char_of (of_char c + (32 :: nat)) else c) s"

definition demo_env :: "utxo list \<Rightarrow> json option \<Rightarrow> env" where
  "demo_env us bal =
     \<lparr>PrivateKey = (\<lambda>k. True),
      getUtxos = (\<lambda>a. if a = addr CHR ''q'' then Some us else None),
      addressScript =
        (\<lambda>a. if a = addr CHR ''q'' then Some (p2pk CHR ''1'')
             else if a = addr CHR ''p'' then Some (p2pk CHR ''2'') else None),
      Output_ok = (\<lambda>s n. (s = p2pk CHR ''1'' \<or> s = p2pk CHR ''2'') \<and> safe_natural n),
      Input_ok = (\<lambda>t i s. length t = 64 \<and> set (lower_hex t) \<subseteq> set hex_digits \<and> s = p2pk CHR ''1''),
      prevTxIdHex = lower_hex,
      getSignature = (\<lambda>sk tx i. Some signature0),
      postTransaction =
        (\<lambda>p. Some \<lparr>resp_transactionId = JString ''id'', resp_rawTransaction = JString ''raw''\<rparr>),
      getBalance = (\<lambda>a. bal)\<rparr>"

definition demo_request :: "number \<Rightarrow> number \<Rightarrow> request" where
  "demo_request amt f =
     \<lparr>senderAddress = Some (addr CHR ''q''), recipientAddress = Some (addr CHR ''p''),
      amount = Some amt, fee = Some f, privateKey = Some ''key''\<rparr>"

text \<open>
  A ledger entry of the sender with a given amount, and one with a given position in its
  transaction as well.
\<close>

definition coin_at :: "nat \<Rightarrow> int \<Rightarrow> utxo" where
  "coin_at i n = \<lparr>utxo_transactionId = replicate 64 CHR ''a'', utxo_index = i, utxo_amount = n,
                  utxo_scriptPublicKey = p2pk CHR ''1''\<rparr>"

definition coin :: "int \<Rightarrow> utxo" where
  "coin n = \<lparr>utxo_transactionId = replicate 64 CHR ''a'', utxo_index = 0, utxo_amount = n,
             utxo_scriptPublicKey = p2pk CHR ''1''\<rparr>"

text \<open>
  The input the handlers build from \<open>coin_at i c\<close>, and the payload the handler with
  several inputs sends when the ledger answers \<open>[coin c]\<close> and the request asks for \<open>a\<close>
  with fee \<open>fe\<close>.
\<close>

definition demo_input_at :: "nat \<Rightarrow> int \<Rightarrow> tx_input" where
  "demo_input_at i c =
     \<lparr>prevTxId = replicate 64 CHR ''a'', outputIndex = i, in_script = p2pk CHR ''1'',
      sequenceNumber = 0, in_output = \<lparr>script = p2pk CHR ''1'', satoshis = Number c\<rparr>\<rparr>"

definition demo_input :: "int \<Rightarrow> tx_input" where
  "demo_input c =
     \<lparr>prevTxId = replicate 64 CHR ''a'', outputIndex = 0, in_script = p2pk CHR ''1'',
      sequenceNumber = 0, in_output = \<lparr>script = p2pk CHR ''1'', satoshis = Number c\<rparr>\<rparr>"

definition demo_payload :: "int \<Rightarrow> int \<Rightarrow> int \<Rightarrow> restApiJson" where
  "demo_payload c a fe =
     mkRestApiJson 0 [signedInput (demo_input c) signature0]
       (payloadOutput \<lparr>script = p2pk CHR ''2'', satoshis = Number a\<rparr> #
        (if 2000000 \<le> c - (a + fe)
         then [payloadOutput \<lparr>script = p2pk CHR ''1'', satoshis = Number (c - (a + fe))\<rparr>]
         else []))"


definition uppercase_request :: request where
  "uppercase_request =
     \<lparr>senderAddress = Some (addr CHR ''Q''), recipientAddress = Some (addr CHR ''p''),
      amount = Some (Fin 1 0), fee = Some (Fin 0 0), privateKey = Some ''key''\<rparr>"


text \<open>
  The lines the handler with one input logs, and the payload it sends, when it has
  selected an entry of amount \<open>c\<close> (at position \<open>i\<close> of its transaction) for a request
  of \<open>a\<close> with fee \<open>fe\<close>: the change output is there whatever the change is.
\<close>

definition demo_log :: "int \<Rightarrow> int \<Rightarrow> int \<Rightarrow> event list" where
  "demo_log c a fe =
     [ConsoleLog ''UTXO amount (sompi):'' c, ConsoleLog ''AmountToSend:'' a,
      ConsoleLog ''FeeAmount:'' fe, ConsoleLog ''ChangeAmount:'' (c - a - fe)]"

definition demo_payload_index :: "nat \<Rightarrow> int \<Rightarrow> int \<Rightarrow> int \<Rightarrow> restApiJson" where
  "demo_payload_index i c a fe =
     mkRestApiJson 0 [signedInput (demo_input_at i c) signature0]
       [\<lparr>out_amount = Number a,
         out_scriptPublicKey = \<lparr>spk_version = 0, spk_scriptPublicKey = p2pk CHR ''2''\<rparr>\<rparr>,
        \<lparr>out_amount = Number (c - a - fe),
         out_scriptPublicKey = \<lparr>spk_version = 0, spk_scriptPublicKey = p2pk CHR ''1''\<rparr>\<rparr>]"

section \<open>Arithmetic of Numbers\<close>

text \<open>
  The number of binary digits, and the Numbers that stand for an integer exactly: for
  every integer \<open>n\<close> below \<open>2 ^ 53\<close> in absolute value, \<^verbatim>\<open>Number(n)\<close> is \<open>n\<close>.
\<close>

lemma nbits_le: "n < 2 ^ k \<Longrightarrow> nbits n \<le> int k"
proof (induction k arbitrary: n)
  case 0
  then have "n \<le> 0" by simp
  then show ?case by (simp add: nbits.simps)
next
  case (Suc k)
  show ?case
  proof (cases "n \<le> 0")
    case True
    then show ?thesis by (simp add: nbits.simps)
  next
    case False
    from Suc.prems have "n div 2 < 2 ^ k" by simp
    from Suc.IH[OF this] False show ?thesis by (simp add: nbits.simps[of n])
  qed
qed

lemma nbits_nonneg: "0 \<le> nbits n"
proof (induction n rule: nbits.induct)
  case (1 n)
  then show ?case by (cases "n \<le> 0") (simp_all add: nbits.simps[of n])
qed

lemma nbits_0 [simp]: "nbits 0 = 0"
  by (simp add: nbits.simps)

lemma nbits_pos: "0 < n \<Longrightarrow> nbits n = 1 + nbits (n div 2)"
  by (simp add: nbits.simps[of n])

lemma nbits_upper: "0 \<le> n \<Longrightarrow> n < 2 ^ nat (nbits n)"
proof (induction n rule: nbits.induct)
  case (1 n)
  show ?case
  proof (cases "n \<le> 0")
    case True
    with 1 have "n = 0" by simp
    then show ?thesis by simp
  next
    case False
    then have pos: "0 < n" by simp
    from 1 False have ih: "n div 2 < 2 ^ nat (nbits (n div 2))" by simp
    have "nat (nbits n) = Suc (nat (nbits (n div 2)))"
      using nbits_pos[OF pos] nbits_nonneg[of "n div 2"] by simp
    moreover from ih have "n < 2 * 2 ^ nat (nbits (n div 2))" by simp
    ultimately show ?thesis by simp
  qed
qed

lemma Number_exact: "\<bar>n\<bar> < 2 ^ 53 \<Longrightarrow> Number n = Fin n 0"
proof -
  assume a: "\<bar>n\<bar> < 2 ^ 53"
  from nbits_le[OF this] have b: "nbits \<bar>n\<bar> \<le> 53" by simp
  then have k: "max (nbits \<bar>n\<bar> - 53) (- 1074 - 0) \<le> 0" by simp
  have s: "sgn n * \<bar>n\<bar> = n" by (simp add: mult_sgn_abs)
  from b have c: "\<not> 1024 < nbits \<bar>n\<bar> + 0" by simp
  show ?thesis
    unfolding Number_def round53_def Let_def using k c s by simp
qed

text \<open>
  The other integers: \<^verbatim>\<open>Number(n)\<close> is a natural number below \<open>2 ^ 53\<close> only for the \<open>n\<close>
  that are, so that an amount the library's test lets pass is the integer it was made of.
\<close>

lemma nbits_lower: "0 < n \<Longrightarrow> 2 ^ (nat (nbits n) - 1) \<le> n"
proof (induction n rule: nbits.induct)
  case (1 n)
  show ?case
  proof (cases "n div 2 = 0")
    case True
    with 1(2) have "n = 1" by presburger
    then show ?thesis by (simp add: nbits.simps[of 1])
  next
    case False
    with 1(2) have pos: "0 < n div 2" by presburger
    from 1(2) have "\<not> n \<le> 0" by simp
    from 1(1)[OF this pos] have ih: "2 ^ (nat (nbits (n div 2)) - 1) \<le> n div 2" .
    have n1: "1 \<le> nbits (n div 2)"
      using nbits_pos[OF pos] nbits_nonneg[of "n div 2 div 2"] by simp
    have "nat (nbits n) - 1 = Suc (nat (nbits (n div 2)) - 1)"
      using nbits_pos[OF 1(2)] n1 by simp
    then have "(2::int) ^ (nat (nbits n) - 1) = 2 * 2 ^ (nat (nbits (n div 2)) - 1)" by simp
    also have "\<dots> \<le> 2 * (n div 2)" using ih by simp
    also have "\<dots> \<le> n" by presburger
    finally show ?thesis .
  qed
qed

lemma nbits_large: "2 ^ 53 \<le> n \<Longrightarrow> 54 \<le> nbits n"
proof (rule ccontr)
  assume a: "2 ^ 53 \<le> n" and "\<not> 54 \<le> nbits n"
  then have "nat (nbits n) \<le> 53" by simp
  then have "(2::int) ^ nat (nbits n) \<le> 2 ^ 53" by (rule power_increasing) simp
  moreover from a have "0 \<le> n" by simp
  from nbits_upper[OF this] have "n < 2 ^ nat (nbits n)" .
  ultimately show False using a by simp
qed

lemma round_half_even_ge: "a div 2 ^ k \<le> round_half_even a k"
  unfolding round_half_even_def Let_def by simp

text \<open>
  \<^verbatim>\<open>Number(n)\<close> for an integer \<open>n\<close> of at least \<open>2 ^ 53\<close> is at least \<open>2 ^ 53\<close>, or infinite.
\<close>

lemma round53_large:
  assumes "2 ^ 53 \<le> a"
  shows "round53 a 0 = PosInf \<or> (\<exists>q k. round53 a 0 = Fin q (int k) \<and> 2 ^ 53 \<le> q * 2 ^ k)"
proof -
  from assms have a: "0 < a" "\<bar>a\<bar> = a" "sgn a = 1" "\<not> a < 0" by simp_all
  define k where "k = nat (nbits a - 53)"
  from nbits_large[OF assms] have nb: "54 \<le> nbits a" .
  then have kmax: "max (nbits a - 53) (- 1074 - 0) = int k" and kpos: "0 < k"
    unfolding k_def by simp_all
  define q where "q = round_half_even a k"
  have r: "round53 a 0 = (if 1024 < nbits q + int k then PosInf else Fin q (int k))"
    unfolding round53_def Let_def a(2) kmax q_def using kpos a(3,4) by simp
  have "nat (nbits a) - 1 = 52 + k" unfolding k_def using nb by simp
  with nbits_lower[OF a(1)] have "(2::int) ^ (52 + k) \<le> a" by simp
  then have "(2::int) ^ 52 * 2 ^ k \<le> a" by (simp add: power_add)
  then have "((2::int) ^ 52 * 2 ^ k) div 2 ^ k \<le> a div 2 ^ k"
    by (rule zdiv_mono1) simp
  then have "(2::int) ^ 52 \<le> a div 2 ^ k" by simp
  with round_half_even_ge[of a k] have "2 ^ 52 \<le> q" unfolding q_def by simp
  then have A: "(2::int) ^ 52 * 2 ^ k \<le> q * 2 ^ k" by (rule mult_right_mono) simp
  have B: "(2::int) ^ 53 \<le> 2 ^ 52 * 2 ^ k"
  proof -
    from kpos have "53 \<le> 52 + k" by simp
    then have "(2::int) ^ 53 \<le> 2 ^ (52 + k)" by (rule power_increasing) simp
    then show ?thesis by (simp only: power_add)
  qed
  from B A have "2 ^ 53 \<le> q * 2 ^ k" by (rule order_trans)
  with r show ?thesis by (cases "1024 < nbits q + int k") auto
qed

lemma round53_neg:
  assumes "0 < a"
  shows "round53 (- a) e =
    (case round53 a e of Fin m e' \<Rightarrow> Fin (- m) e' | PosInf \<Rightarrow> NegInf | NegInf \<Rightarrow> PosInf)"
  using assms unfolding round53_def Let_def by (simp add: sgn_if)

lemma Number_safe_natural: "safe_natural (Number k) \<longleftrightarrow> 0 \<le> k \<and> k < 2 ^ 53"
proof
  assume "0 \<le> k \<and> k < 2 ^ 53"
  then have "\<bar>k\<bar> < 2 ^ 53" by simp
  from Number_exact[OF this] \<open>0 \<le> k \<and> k < 2 ^ 53\<close> show "safe_natural (Number k)"
    by (simp add: safe_natural_def)
next
  assume s: "safe_natural (Number k)"
  show "0 \<le> k \<and> k < 2 ^ 53"
  proof (rule ccontr)
    assume "\<not> (0 \<le> k \<and> k < 2 ^ 53)"
    then consider "2 ^ 53 \<le> k" | "k < 0" "- k < 2 ^ 53" | "k < 0" "2 ^ 53 \<le> - k" by linarith
    then show False
    proof cases
      case 1
      from round53_large[OF this] s show False
        unfolding Number_def safe_natural_def by auto
    next
      case 2
      then have "\<bar>k\<bar> < 2 ^ 53" by simp
      from Number_exact[OF this] s 2 show False by (simp add: safe_natural_def)
    next
      case 3
      from 3(1) have p: "0 < - k" by simp
      from round53_neg[OF p, of 0] have n: "round53 k 0 =
        (case round53 (- k) 0 of Fin m e' \<Rightarrow> Fin (- m) e' | PosInf \<Rightarrow> NegInf | NegInf \<Rightarrow> PosInf)"
        by simp
      from round53_large[OF 3(2)] show False
      proof
        assume "round53 (- k) 0 = PosInf"
        with n s show False unfolding Number_def safe_natural_def by simp
      next
        assume "\<exists>q j. round53 (- k) 0 = Fin q (int j) \<and> 2 ^ 53 \<le> q * 2 ^ j"
        then obtain q j where "round53 (- k) 0 = Fin q (int j)" "2 ^ 53 \<le> q * 2 ^ j" by blast
        with n s show False unfolding Number_def safe_natural_def by simp
      qed
    qed
  qed
qed

lemma Output_checked_Number:
  assumes "Output_checked env" "Output_ok env s (Number k)"
  shows "0 \<le> k" "k < 2 ^ 53" "Number k = Fin k 0" "int_value (Number k) = k"
proof -
  from assms have "safe_natural (Number k)" by (simp add: Output_checked_def)
  then show 1: "0 \<le> k" and 2: "k < 2 ^ 53" by (simp_all add: Number_safe_natural)
  then have "\<bar>k\<bar> < 2 ^ 53" by simp
  from Number_exact[OF this] show "Number k = Fin k 0" "int_value (Number k) = k" by simp_all
qed

section \<open>Numbers of the handlers and of the examples\<close>

text \<open>
  The dust threshold \<^verbatim>\<open>BigInt(Math.floor(0.02 * 1e8))\<close> is 2000000. The literal \<^verbatim>\<open>0.02\<close> is
  read as \<open>5764607523034235 * 2 ^ -58\<close>: a mantissa of 53 bits, at a distance of at most
  \<open>2 ^ -59\<close>, half a unit in the last place, from \<open>1 / 50\<close>. The amounts of the examples
  are 1, 0, \<^verbatim>\<open>0.0001\<close> (read as \<open>7378697629483821 * 2 ^ -66\<close>), \<^verbatim>\<open>1e-9\<close> (read as
  \<open>4835703278458517 * 2 ^ -82\<close>) and \<open>1 + 2 ^ -52\<close>, the Number next to 1
  (\<open>4503599627370497 * 2 ^ -52\<close>).
\<close>

lemma dust_literal:
  "2 ^ 52 \<le> (5764607523034235 :: int) \<and> (5764607523034235 :: int) < 2 ^ 53 \<and>
   \<bar>50 * 5764607523034235 - 2 ^ 58\<bar> \<le> (25 :: int)"
  by simp

lemma dustThreshold_eq: "dustThreshold = Some 2000000"
  unfolding dustThreshold_def toSompi_def by code_simp

lemma toSompi_1: "toSompi (Fin 1 0) = Some 100000000"
  unfolding toSompi_def by code_simp

lemma toSompi_0: "toSompi (Fin 0 0) = Some 0"
  unfolding toSompi_def by code_simp

lemma toSompi_fee: "toSompi (Fin 7378697629483821 (- 66)) = Some 10000"
  unfolding toSompi_def by code_simp

lemma not_neg_demo [simp]:
  "\<not> le_zero (Fin 1 0)" "\<not> lt_zero (Fin 0 0)" "\<not> lt_zero (Fin 7378697629483821 (- 66))"
  by simp_all

section \<open>Decimal strings\<close>

lemma digit_digit_char: "d < 10 \<Longrightarrow> digit (digit_char d)"
  unfolding digit_def digit_char_def by (rule nth_mem) simp

lemma nat_toString_digits: "nat_toString n \<noteq> [] \<and> list_all digit (nat_toString n)"
proof (induction n rule: nat_toString.induct)
  case (1 n)
  show ?case
  proof (cases "n < 10")
    case True
    then show ?thesis by (simp add: nat_toString.simps[of n] digit_digit_char)
  next
    case False
    with 1 show ?thesis by (simp add: nat_toString.simps[of n] digit_digit_char)
  qed
qed

lemma decimal_BigInt_toString: "decimal_string (BigInt_toString n)"
proof (cases "n < 0")
  case True
  with nat_toString_digits[of "nat (- n)"] show ?thesis
    by (simp add: BigInt_toString_def decimal_string_def)
next
  case False
  obtain c r where cr: "nat_toString (nat n) = c # r"
    using nat_toString_digits[of "nat n"] by (cases "nat_toString (nat n)") auto
  with nat_toString_digits[of "nat n"] have "digit c" "list_all digit r" by simp_all
  then have "c \<noteq> CHR ''-''" by (auto simp: digit_def)
  with False cr \<open>digit c\<close> \<open>list_all digit r\<close> show ?thesis
    by (simp add: BigInt_toString_def decimal_string_def)
qed

section \<open>The address pattern\<close>

lemma matches_Lits:
  "matches (map Lit cs @ r) s = (take (length cs) s = cs \<and> matches r (drop (length cs) s))"
proof (induction cs arbitrary: s)
  case Nil
  then show ?case by simp
next
  case (Cons c cs)
  then show ?case by (cases s) auto
qed

lemma matches_Class_end:
  "matches [Class rs lo hi] s = (lo \<le> length s \<and> length s \<le> hi \<and> list_all (in_class rs) s)"
proof -
  have "matches [Class rs lo hi] s =
        (\<exists>n\<in>set [lo ..< Suc hi]. n \<le> length s \<and> list_all (in_class rs) (take n s) \<and> drop n s = [])"
    by (simp add: list_ex_iff)
  also have "\<dots> = (lo \<le> length s \<and> length s \<le> hi \<and> list_all (in_class rs) s)"
  proof
    assume "\<exists>n\<in>set [lo ..< Suc hi]. n \<le> length s \<and> list_all (in_class rs) (take n s) \<and> drop n s = []"
    then obtain n where n: "lo \<le> n" "n \<le> hi" "n \<le> length s" "list_all (in_class rs) (take n s)"
      "drop n s = []" by auto
    from n(3,5) have "n = length s" by simp
    with n show "lo \<le> length s \<and> length s \<le> hi \<and> list_all (in_class rs) s" by simp
  next
    assume a: "lo \<le> length s \<and> length s \<le> hi \<and> list_all (in_class rs) s"
    then have "length s \<in> set [lo ..< Suc hi]" by auto
    with a show "\<exists>n\<in>set [lo ..< Suc hi]. n \<le> length s \<and> list_all (in_class rs) (take n s) \<and> drop n s = []"
      by (intro bexI[of _ "length s"]) simp_all
  qed
  finally show ?thesis .
qed

lemma lower_alnum_codes: "map of_char lower_alnum = [97 ..< 123] @ [48 ..< 58 :: nat]"
  by (simp add: lower_alnum_def)

lemma in_class_kaspa:
  "in_class [(CHR ''a'', CHR ''z''), (CHR ''0'', CHR ''9'')] c = (c \<in> set lower_alnum)"
proof -
  have "(c \<in> set lower_alnum) = ((of_char c :: nat) \<in> of_char ` set lower_alnum)"
    by (simp add: inj_image_mem_iff[OF inj_of_char])
  also have "\<dots> = ((of_char c :: nat) \<in> set ([97 ..< 123] @ [48 ..< 58]))"
    unfolding lower_alnum_codes[symmetric] by simp
  also have "\<dots> = in_class [(CHR ''a'', CHR ''z''), (CHR ''0'', CHR ''9'')] c"
    unfolding in_class_def set_append set_upt by auto
  finally show ?thesis by simp
qed

lemma kaspaRegex_iff:
  "test kaspaRegex s =
     (\<exists>p. s = ''kaspa:'' @ p \<and> 61 \<le> length p \<and> length p \<le> 63 \<and> set p \<subseteq> set lower_alnum)"
proof -
  have L: "matches (map Lit ''kaspa:'' @ r) s = (take 6 s = ''kaspa:'' \<and> matches r (drop 6 s))"
    for r
  proof -
    have "length ''kaspa:'' = 6" by simp
    from matches_Lits[of "''kaspa:''" r s, unfolded this] show ?thesis .
  qed
  have "test kaspaRegex s =
        (take 6 s = ''kaspa:'' \<and> 61 \<le> length (drop 6 s) \<and> length (drop 6 s) \<le> 63 \<and>
         list_all (\<lambda>c. c \<in> set lower_alnum) (drop 6 s))"
    unfolding test_def kaspaRegex_def L matches_Class_end in_class_kaspa ..
  also have "\<dots> = (\<exists>p. s = ''kaspa:'' @ p \<and> 61 \<le> length p \<and> length p \<le> 63 \<and> set p \<subseteq> set lower_alnum)"
  proof
    assume a: "take 6 s = ''kaspa:'' \<and> 61 \<le> length (drop 6 s) \<and> length (drop 6 s) \<le> 63 \<and>
         list_all (\<lambda>c. c \<in> set lower_alnum) (drop 6 s)"
    have "s = take 6 s @ drop 6 s" by simp
    with a have "s = ''kaspa:'' @ drop 6 s" by simp
    with a show "\<exists>p. s = ''kaspa:'' @ p \<and> 61 \<le> length p \<and> length p \<le> 63 \<and> set p \<subseteq> set lower_alnum"
      by (intro exI[of _ "drop 6 s"]) (simp add: list_all_iff subset_iff)
  next
    assume "\<exists>p. s = ''kaspa:'' @ p \<and> 61 \<le> length p \<and> length p \<le> 63 \<and> set p \<subseteq> set lower_alnum"
    then obtain p where "s = ''kaspa:'' @ p" "61 \<le> length p" "length p \<le> 63" "set p \<subseteq> set lower_alnum"
      by blast
    then show "take 6 s = ''kaspa:'' \<and> 61 \<le> length (drop 6 s) \<and> length (drop 6 s) \<le> 63 \<and>
         list_all (\<lambda>c. c \<in> set lower_alnum) (drop 6 s)"
      by (simp add: list_all_iff subset_iff)
  qed
  finally show ?thesis .
qed

lemma test_addr: "c \<in> set lower_alnum \<Longrightarrow> test kaspaRegex (addr c)"
  unfolding kaspaRegex_iff addr_def by (intro exI[of _ "replicate 61 c"]) simp

lemma addr_neq: "addr CHR ''p'' \<noteq> addr CHR ''q''"
  by (simp add: addr_def)

lemma not_test_upper: "\<not> test kaspaRegex (addr CHR ''Q'')"
  unfolding kaspaRegex_iff by (auto simp: addr_def lower_alnum_def)

lemma distinct_lower_alnum: "distinct lower_alnum"
  by (simp add: lower_alnum_def)

lemma card_lower_alnum: "card (set lower_alnum) = 36"
  using distinct_card[OF distinct_lower_alnum] by (simp add: lower_alnum_def)

lemma no_alphabet_of_32:
  assumes "finite A" "card A \<le> 32"
  shows "\<exists>c. c \<notin> A \<and> test kaspaRegex (addr c)"
proof -
  have "\<not> set lower_alnum \<subseteq> A"
  proof
    assume "set lower_alnum \<subseteq> A"
    from card_mono[OF assms(1) this] assms(2) show False by (simp add: card_lower_alnum)
  qed
  then obtain c where "c \<in> set lower_alnum" "c \<notin> A" by blast
  with test_addr show ?thesis by blast
qed

section \<open>The signature pattern\<close>

lemma in_class_hex:
  "c \<in> set hex_digits \<Longrightarrow> in_class [(CHR ''0'', CHR ''9''), (CHR ''a'', CHR ''f'')] c"
  unfolding hex_digits_def in_class_def by auto

lemma matches_Class_exact:
  "matches (Class rs n n # r) s =
     (n \<le> length s \<and> list_all (in_class rs) (take n s) \<and> matches r (drop n s))"
  by simp

lemma test_signaturePattern:
  assumes "length sg = 128" "set sg \<subseteq> set hex_digits"
  shows "test signaturePattern (''41'' @ sg @ ''01'')"
proof -
  have l: "length ''41'' = 2" by simp
  have 1: "matches (map Lit ''41'' @ r) s = (take 2 s = ''41'' \<and> matches r (drop 2 s))" for r s
    using matches_Lits[of "''41''" r s] unfolding l .
  have 2: "list_all (in_class [(CHR ''0'', CHR ''9''), (CHR ''a'', CHR ''f'')]) sg"
    using assms(2) in_class_hex by (auto simp: list_all_iff)
  have 3: "matches (map Lit ''01'') ''01''" by simp
  show ?thesis
    unfolding test_def signaturePattern_def 1 append_Cons append_Nil matches_Class_exact
    using assms(1) 2 3 by simp
qed

lemma byteLength_script: "length sg = 128 \<Longrightarrow> byteLength (''41'' @ sg @ ''01'') = 66"
  by (simp add: byteLength_def)

section \<open>Steps of a handler\<close>

lemma andThen_Inl: "andThen (t, Inl r) f = (t, Inl r)"
  by (simp add: andThen_def)

lemma andThen_Inr: "andThen (t, Inr x) f = (t @ fst (f x), snd (f x))"
  by (simp add: andThen_def split: prod.splits)

lemma andThen_Inr_case: "andThen (t, Inr x) f = (case f x of (t', y) \<Rightarrow> (t @ t', y))"
  by (simp add: andThen_def)

lemma lib_simps [simp]: "lib None = ([], Inl Error500)" "lib (Some v) = ([], Inr v)"
  by (simp_all add: lib_def)

lemma call_simps [simp]: "call ev None = ([ev], Inl Error500)" "call ev (Some v) = ([ev], Inr v)"
  by (simp_all add: call_def)

lemma andThen_InrE:
  assumes "andThen m f = (t, Inr y)"
  obtains t1 x t2 where "m = (t1, Inr x)" "f x = (t2, Inr y)" "t = t1 @ t2"
proof -
  obtain t1 r where m: "m = (t1, r)" by (cases m)
  show ?thesis
  proof (cases r)
    case (Inl e)
    with m assms show ?thesis by (simp add: andThen_Inl)
  next
    case (Inr x)
    obtain t2 z where fx: "f x = (t2, z)" by (cases "f x")
    with m Inr assms have "t = t1 @ t2" "z = Inr y" by (simp_all add: andThen_Inr)
    with m Inr fx that show ?thesis by simp
  qed
qed

lemma andThen_eq_Inr:
  "(andThen m f = (t, Inr y)) = (\<exists>t1 x t2. m = (t1, Inr x) \<and> f x = (t2, Inr y) \<and> t = t1 @ t2)"
proof
  assume "andThen m f = (t, Inr y)"
  then show "\<exists>t1 x t2. m = (t1, Inr x) \<and> f x = (t2, Inr y) \<and> t = t1 @ t2"
    by (elim andThen_InrE) blast
next
  assume "\<exists>t1 x t2. m = (t1, Inr x) \<and> f x = (t2, Inr y) \<and> t = t1 @ t2"
  then show "andThen m f = (t, Inr y)" by (auto simp: andThen_Inr)
qed

lemma lib_eq_Inr: "(lib x = (t, Inr v)) = (x = Some v \<and> t = [])"
  by (cases x) auto

lemma call_eq_Inr: "(call ev x = (t, Inr v)) = (x = Some v \<and> t = [ev])"
  by (cases x) auto

lemma andThen_eq_Inl:
  "(andThen m f = (t, Inl e)) =
     (m = (t, Inl e) \<or> (\<exists>t1 x t2. m = (t1, Inr x) \<and> f x = (t2, Inl e) \<and> t = t1 @ t2))"
proof (cases m)
  case (Pair t1 r)
  show ?thesis
  proof (cases r)
    case (Inl e')
    with Pair show ?thesis by (auto simp: andThen_Inl)
  next
    case (Inr x)
    with Pair show ?thesis by (cases "f x") (auto simp: andThen_Inr_case)
  qed
qed

lemma lib_eq_Inl: "(lib x = (t, Inl e)) = (x = None \<and> t = [] \<and> e = Error500)"
  by (cases x) auto

lemma call_eq_Inl: "(call ev x = (t, Inl e)) = (x = None \<and> t = [ev] \<and> e = Error500)"
  by (cases x) auto

section \<open>The validation\<close>



lemma validate_demo:
  "\<not> le_zero amt \<Longrightarrow> \<not> lt_zero f \<Longrightarrow>
   validate (demo_request amt f) = Inr (addr CHR ''q'', addr CHR ''p'', amt, f, ''key'')"
  using addr_neq by (simp add: validate_def demo_request_def test_addr lower_alnum_def) (simp add: addr_def)

lemma demo_validate:
  "validate (demo_request (Fin 1 0) (Fin 7378697629483821 (- 66))) =
     Inr (addr CHR ''q'', addr CHR ''p'', Fin 1 0, Fin 7378697629483821 (- 66), ''key'')"
  by (rule validate_demo) simp_all

section \<open>The selection loop\<close>

lemma psum_simps [simp]: "psum [] = 0" "psum (u # us) = utxo_amount u + psum us"
  "psum (xs @ ys) = psum xs + psum ys"
  by (simp_all add: psum_def)

lemma selectLoop_spec:
  "selectLoop us ins s t = (ins', s') \<Longrightarrow>
   \<exists>n\<le>length us. ins' = ins @ take n us \<and> s' = s + psum (take n us) \<and>
     (\<forall>j. 0 < j \<and> j < n \<longrightarrow> s + psum (take j us) < t) \<and>
     (us \<noteq> [] \<longrightarrow> 0 < n) \<and> (s' < t \<longrightarrow> n = length us)"
proof (induction us arbitrary: ins s)
  case Nil
  then show ?case by simp
next
  case (Cons u us)
  show ?case
  proof (cases "t \<le> s + utxo_amount u")
    case True
    with Cons.prems have "ins' = ins @ [u]" "s' = s + utxo_amount u" by simp_all
    with True show ?thesis by (intro exI[of _ 1]) simp
  next
    case False
    with Cons.prems have "selectLoop us (ins @ [u]) (s + utxo_amount u) t = (ins', s')" by simp
    from Cons.IH[OF this] obtain n where n1: "n \<le> length us"
      and n2: "ins' = (ins @ [u]) @ take n us"
      and n3: "s' = s + utxo_amount u + psum (take n us)"
      and n4: "\<forall>j. 0 < j \<and> j < n \<longrightarrow> s + utxo_amount u + psum (take j us) < t"
      and n5: "s' < t \<longrightarrow> n = length us" by blast
    have a: "Suc n \<le> length (u # us)" using n1 by simp
    have b: "ins' = ins @ take (Suc n) (u # us)" using n2 by simp
    have c: "s' = s + psum (take (Suc n) (u # us))" using n3 by simp
    have d: "\<forall>j. 0 < j \<and> j < Suc n \<longrightarrow> s + psum (take j (u # us)) < t"
    proof (intro allI impI)
      fix j assume j: "0 < j \<and> j < Suc n"
      then obtain j' where j': "j = Suc j'" by (cases j) auto
      show "s + psum (take j (u # us)) < t"
      proof (cases "j' = 0")
        case True with False j' show ?thesis by simp
      next
        case F: False
        with j j' n4 have "s + utxo_amount u + psum (take j' us) < t" by simp
        with j' show ?thesis by simp
      qed
    qed
    have e: "s' < t \<longrightarrow> Suc n = length (u # us)" using n5 by simp
    from a b c d e show ?thesis by blast
  qed
qed

lemma selectInputs_unfold:
  "selectInputs utxos t =
     (if snd (selectLoop utxos [] 0 t) < t then None else Some (selectLoop utxos [] 0 t))"
  by (simp add: selectInputs_def split: prod.splits)

lemma selectInputs_Some:
  assumes "selectInputs utxos t = Some (ins, sm)"
  shows "\<exists>n\<le>length utxos. ins = take n utxos \<and> sm = psum ins \<and> t \<le> sm \<and>
     (\<forall>j. 0 < j \<and> j < n \<longrightarrow> psum (take j utxos) < t) \<and> (utxos \<noteq> [] \<longrightarrow> 0 < n)"
proof -
  from assms have 1: "selectLoop utxos [] 0 t = (ins, sm)"
    by (simp add: selectInputs_unfold split: if_splits)
  from assms have 2: "t \<le> sm"
    by (simp add: selectInputs_unfold split: if_splits)
  from selectLoop_spec[OF 1] obtain n where n1: "n \<le> length utxos"
    and n2: "ins = [] @ take n utxos" and n3: "sm = 0 + psum (take n utxos)"
    and n4: "\<forall>j. 0 < j \<and> j < n \<longrightarrow> 0 + psum (take j utxos) < t"
    and n5: "utxos \<noteq> [] \<longrightarrow> 0 < n" by blast
  have a: "ins = take n utxos" using n2 by simp
  have b: "sm = psum ins" using n3 a by simp
  have c: "\<forall>j. 0 < j \<and> j < n \<longrightarrow> psum (take j utxos) < t" using n4 by simp
  from n1 a b 2 c n5 show ?thesis by blast
qed

lemma selectInputs_None:
  assumes "selectInputs utxos t = None"
  shows "\<forall>j. 0 < j \<and> j \<le> length utxos \<longrightarrow> psum (take j utxos) < t"
proof -
  obtain ins sm where 1: "selectLoop utxos [] 0 t = (ins, sm)" by (cases "selectLoop utxos [] 0 t")
  with assms have 2: "sm < t" by (simp add: selectInputs_unfold split: if_splits)
  from selectLoop_spec[OF 1] obtain n where n1: "n \<le> length utxos"
    and n3: "sm = 0 + psum (take n utxos)"
    and n4: "\<forall>j. 0 < j \<and> j < n \<longrightarrow> 0 + psum (take j utxos) < t"
    and n6: "sm < t \<longrightarrow> n = length utxos" by blast
  from 2 n6 have n: "n = length utxos" by simp
  show ?thesis
  proof (intro allI impI)
    fix j assume j: "0 < j \<and> j \<le> length utxos"
    show "psum (take j utxos) < t"
    proof (cases "j = length utxos")
      case True
      with 2 n3 n show ?thesis by simp
    next
      case False
      with j n have "0 < j \<and> j < n" by simp
      with n4 show ?thesis by simp
    qed
  qed
qed

lemma selectInputs_total:
  assumes "0 < t" "t \<le> psum utxos"
  shows "\<exists>n. 0 < n \<and> n \<le> length utxos \<and>
           selectInputs utxos t = Some (take n utxos, psum (take n utxos)) \<and>
           t \<le> psum (take n utxos) \<and> psum (butlast (take n utxos)) < t \<and>
           (\<forall>j<n. psum (take j utxos) < t)"
proof (cases "selectInputs utxos t")
  case None
  from selectInputs_None[OF None] assms show ?thesis by (cases "utxos = []") auto
next
  case (Some r)
  obtain ins sm where r: "r = (ins, sm)" by (cases r)
  from selectInputs_Some[OF Some[unfolded r]] obtain n where n1: "n \<le> length utxos"
    and n2: "ins = take n utxos" and n3: "sm = psum ins" and n4: "t \<le> sm"
    and n5: "\<forall>j. 0 < j \<and> j < n \<longrightarrow> psum (take j utxos) < t"
    and n6: "utxos \<noteq> [] \<longrightarrow> 0 < n" by blast
  have pos: "0 < n"
  proof (cases "utxos = []")
    case True
    with assms show ?thesis by simp
  next
    case False
    with n6 show ?thesis by simp
  qed
  have all: "\<forall>j<n. psum (take j utxos) < t"
  proof (intro allI impI)
    fix j assume "j < n"
    show "psum (take j utxos) < t"
    proof (cases "j = 0")
      case True
      with assms show ?thesis by simp
    next
      case False
      with \<open>j < n\<close> n5 show ?thesis by simp
    qed
  qed
  have bl: "butlast (take n utxos) = take (n - 1) utxos"
    using n1 by (simp add: butlast_take)
  from pos all have "psum (take (n - 1) utxos) < t" by simp
  with bl have b: "psum (butlast (take n utxos)) < t" by simp
  have s: "selectInputs utxos t = Some (take n utxos, psum (take n utxos))"
    using Some r n2 n3 by simp
  from n4 n3 n2 have g: "t \<le> psum (take n utxos)" by simp
  from pos n1 s g b all show ?thesis by blast
qed

lemma selectInputs_exhausted:
  assumes "\<forall>n\<le>length utxos. psum (take n utxos) < t"
  shows "selectInputs utxos t = None"
proof (cases "selectInputs utxos t")
  case None
  then show ?thesis .
next
  case (Some r)
  obtain ins sm where r: "r = (ins, sm)" by (cases r)
  from selectInputs_Some[OF Some[unfolded r]] obtain n where "n \<le> length utxos"
    "ins = take n utxos" "sm = psum ins" "t \<le> sm" by blast
  with assms show ?thesis by auto
qed

lemma all_prefixes_single:
  "(\<forall>n\<le>length [u]. psum (take n [u]) < t) = (0 < t \<and> utxo_amount u < t)"
proof -
  have "(\<forall>n\<le>length [u]. psum (take n [u]) < t) = (\<forall>n\<in>{0, 1}. psum (take n [u]) < t)"
    by (auto simp: le_Suc_eq)
  then show ?thesis by simp
qed

lemma selectInputs_single: "t \<le> c \<Longrightarrow> selectInputs [coin c] t = Some ([coin c], c)"
  by (simp add: selectInputs_def coin_def)

lemma demo_select:
  "selectInputs [coin 150000000] (100000000 + 10000) = Some ([coin 150000000], 150000000)"
  by (rule selectInputs_single) simp

section \<open>Building and signing\<close>

lemma payTo_SomeD:
  "payTo env a n = Some out \<Longrightarrow>
   \<exists>s. addressScript env a = Some s \<and> Output_ok env s n \<and> out = \<lparr>script = s, satoshis = n\<rparr>"
  by (cases "addressScript env a") (simp_all add: payTo_def newOutput_def split: if_splits)

lemma addInputs_length: "addInputs env us = Some xs \<Longrightarrow> length xs = length us"
proof (induction us arbitrary: xs)
  case Nil
  then show ?case by simp
next
  case (Cons u us)
  then show ?case by (cases "newInput env u"; cases "addInputs env us") auto
qed

lemma signInputs_Inr:
  "signInputs env sk tx i xs = (ts, Inr ss) \<Longrightarrow>
   ts = map Sign [i ..< i + length xs] \<and> length ss = length xs \<and>
   (\<forall>j<length xs. \<exists>sg. getSignature env sk tx (i + j) = Some sg \<and> ss ! j = signedInput (xs ! j) sg)"
proof (induction xs arbitrary: i ts ss)
  case Nil
  then show ?case by simp
next
  case (Cons x xs)
  from Cons.prems obtain sg ts' rest where
    sg: "getSignature env sk tx i = Some sg"
    and r: "signInputs env sk tx (Suc i) xs = (ts', Inr rest)"
    and ts: "ts = Sign i # ts'" and ss: "ss = signedInput x sg # rest"
    by (auto simp: andThen_eq_Inr call_eq_Inr)
  from Cons.IH[OF r] have ih1: "ts' = map Sign [Suc i ..< Suc i + length xs]"
    and ih2: "length rest = length xs"
    and ih3: "\<forall>j<length xs. \<exists>sg. getSignature env sk tx (Suc i + j) = Some sg \<and> rest ! j = signedInput (xs ! j) sg"
    by simp_all
  have a: "ts = map Sign [i ..< i + length (x # xs)]"
  proof -
    have "[i ..< Suc (i + length xs)] = i # [Suc i ..< Suc (i + length xs)]"
      by (rule upt_conv_Cons) simp
    then have "[i ..< i + length (x # xs)] = i # [Suc i ..< Suc i + length xs]"
      by (simp only: list.size add_Suc_right add_Suc add_0_right One_nat_def)
    with ts ih1 show ?thesis by (simp only: list.map)
  qed
  have b: "length ss = length (x # xs)" using ss ih2 by simp
  have c: "\<forall>j<length (x # xs). \<exists>sg. getSignature env sk tx (i + j) = Some sg \<and> ss ! j = signedInput ((x # xs) ! j) sg"
  proof (intro allI impI)
    fix j assume j: "j < length (x # xs)"
    show "\<exists>sg. getSignature env sk tx (i + j) = Some sg \<and> ss ! j = signedInput ((x # xs) ! j) sg"
    proof (cases j)
      case 0
      with sg ss show ?thesis by simp
    next
      case (Suc j')
      with j ih3 ss show ?thesis by simp
    qed
  qed
  from a b c show ?case by blast
qed

lemma signInputs_trace:
  "signInputs env sk tx i xs = (ts, Inr ss) \<Longrightarrow> ts = map Sign [i ..< i + length xs]"
  by (drule signInputs_Inr) simp

lemma signInputs_scripts:
  assumes "\<forall>sk tx i sg. getSignature env sk tx i = Some sg \<longrightarrow>
             length sg = 128 \<and> set sg \<subseteq> set hex_digits"
    and "signInputs env sk tx i xs = (ts, Inr ss)"
  shows "ts = map Sign [i ..< i + length xs] \<and> length ss = length xs \<and>
     (\<forall>si\<in>set ss. (\<exists>sg. length sg = 128 \<and> signatureScript si = ''41'' @ sg @ ''01'') \<and>
        test signaturePattern (signatureScript si) \<and> byteLength (signatureScript si) = 66)"
proof -
  from signInputs_Inr[OF assms(2)] have a: "ts = map Sign [i ..< i + length xs]"
    and b: "length ss = length xs"
    and c: "\<forall>j<length xs. \<exists>sg. getSignature env sk tx (i + j) = Some sg \<and>
              ss ! j = signedInput (xs ! j) sg" by simp_all
  have "\<forall>si\<in>set ss. (\<exists>sg. length sg = 128 \<and> signatureScript si = ''41'' @ sg @ ''01'') \<and>
        test signaturePattern (signatureScript si) \<and> byteLength (signatureScript si) = 66"
  proof
    fix si assume "si \<in> set ss"
    then obtain j where j: "j < length ss" "si = ss ! j" by (auto simp: in_set_conv_nth)
    with b c obtain sg where sg: "getSignature env sk tx (i + j) = Some sg"
      "ss ! j = signedInput (xs ! j) sg" by auto
    from assms(1) sg(1) have l: "length sg = 128" and h: "set sg \<subseteq> set hex_digits" by auto
    from j sg(2) have scr: "signatureScript si = ''41'' @ sg @ ''01''"
      by (simp add: signedInput_def)
    from l scr have 1: "\<exists>sg. length sg = 128 \<and> signatureScript si = ''41'' @ sg @ ''01''" by blast
    from test_signaturePattern[OF l h] scr have 2: "test signaturePattern (signatureScript si)"
      by simp
    from byteLength_script[OF l] scr have 3: "byteLength (signatureScript si) = 66" by simp
    from 1 2 3 show "(\<exists>sg. length sg = 128 \<and> signatureScript si = ''41'' @ sg @ ''01'') \<and>
        test signaturePattern (signatureScript si) \<and> byteLength (signatureScript si) = 66"
      by blast
  qed
  with a b show ?thesis by blast
qed

lemma createTransaction_insufficient:
  assumes "validate req = Inr (sender, recipient, amt, f, key)"
    and "toSompi amt = Some amountToSend" and "toSompi f = Some feeAmount"
    and "PrivateKey env key" and "getUtxos env sender = Some utxos"
    and "selectInputs utxos (amountToSend + feeAmount) = None"
  shows "createTransaction env req =
           ([NewPrivateKey key, GetUtxos sender],
            Inl (Error400 ''Insufficient UTXOs for requested amount''))"
  using assms by (simp add: createTransaction_def andThen_Inr andThen_Inl)

text \<open>The calls of the library and of the network that a build needs, when they succeed.\<close>

lemma newInput_Some:
  "accepts_entry env u \<Longrightarrow>
   newInput env u =
     Some \<lparr>prevTxId = prevTxIdHex env (utxo_transactionId u), outputIndex = utxo_index u,
           in_script = utxo_scriptPublicKey u, sequenceNumber = 0,
           in_output = \<lparr>script = utxo_scriptPublicKey u, satoshis = Number (utxo_amount u)\<rparr>\<rparr>"
  by (simp add: accepts_entry_def newInput_def newOutput_def)

lemma newInput_None: "\<not> accepts_entry env u \<Longrightarrow> newInput env u = None"
  by (auto simp: accepts_entry_def newInput_def newOutput_def)

lemma newInput_SomeD:
  assumes "newInput env u = Some x"
  shows "accepts_entry env u"
    and "x = \<lparr>prevTxId = prevTxIdHex env (utxo_transactionId u), outputIndex = utxo_index u,
              in_script = utxo_scriptPublicKey u, sequenceNumber = 0,
              in_output = \<lparr>script = utxo_scriptPublicKey u, satoshis = Number (utxo_amount u)\<rparr>\<rparr>"
proof -
  show a: "accepts_entry env u"
  proof (rule ccontr)
    assume "\<not> accepts_entry env u"
    from newInput_None[OF this] assms show False by simp
  qed
  from newInput_Some[OF a] assms show "x = \<lparr>prevTxId = prevTxIdHex env (utxo_transactionId u),
      outputIndex = utxo_index u, in_script = utxo_scriptPublicKey u, sequenceNumber = 0,
      in_output = \<lparr>script = utxo_scriptPublicKey u, satoshis = Number (utxo_amount u)\<rparr>\<rparr>"
    by simp
qed

lemma addInputs_amounts:
  "addInputs env us = Some xs \<Longrightarrow> \<forall>u\<in>set us. accepts_entry env u"
proof (induction us arbitrary: xs)
  case Nil
  then show ?case by simp
next
  case (Cons u us)
  then show ?case
    by (cases "newInput env u"; cases "addInputs env us") (auto dest: newInput_SomeD(1))
qed

lemma addInputs_SomeD:
  "addInputs env us = Some xs \<Longrightarrow>
   length xs = length us \<and> (\<forall>u\<in>set us. accepts_entry env u)"
  using addInputs_length addInputs_amounts by blast

lemma addInputs_Some:
  "\<forall>u\<in>set us. accepts_entry env u \<Longrightarrow> \<exists>xs. addInputs env us = Some xs"
proof (induction us)
  case Nil
  then show ?case by simp
next
  case (Cons u us)
  then obtain xs where "addInputs env us = Some xs" by auto
  with Cons.prems show ?case by (simp add: newInput_Some)
qed

lemma payTo_Some:
  "addressScript env a = Some s \<Longrightarrow> Output_ok env s n \<Longrightarrow>
   payTo env a n = Some \<lparr>script = s, satoshis = n\<rparr>"
  by (simp add: payTo_def newOutput_def)

lemma payTo_refused: "\<forall>s. \<not> Output_ok env s n \<Longrightarrow> payTo env a n = None"
  by (cases "addressScript env a") (simp_all add: payTo_def newOutput_def)

lemma signInputs_succeeds:
  assumes "\<forall>tx i. getSignature env sk tx i \<noteq> None"
  shows "\<exists>ss. signInputs env sk tx i xs = (map Sign [i ..< i + length xs], Inr ss)"
proof -
  have "\<exists>ts ss. signInputs env sk tx i xs = (ts, Inr ss)"
  proof (induction xs arbitrary: i)
    case Nil
    show ?case by simp
  next
    case (Cons x xs)
    from assms obtain sg where sg: "getSignature env sk tx i = Some sg" by fastforce
    from Cons[of "Suc i"] obtain ts ss where "signInputs env sk tx (Suc i) xs = (ts, Inr ss)"
      by blast
    with sg show ?case by (simp add: andThen_Inr_case)
  qed
  then obtain ts ss where r: "signInputs env sk tx i xs = (ts, Inr ss)" by blast
  from signInputs_trace[OF r] r show ?thesis by simp
qed

lemma createTransaction_run:
  assumes "validate req = Inr (sender, recipient, amt, f, key)"
    and "toSompi amt = Some amountToSend" and "toSompi f = Some feeAmount"
    and "PrivateKey env key" and "getUtxos env sender = Some utxos"
    and "selectInputs utxos (amountToSend + feeAmount) = Some (inputs, inputSum)"
    and "addInputs env inputs = Some txInputs"
    and "payTo env recipient (Number amountToSend) = Some recipientOut"
    and "if 2000000 \<le> inputSum - (amountToSend + feeAmount)
         then \<exists>out. payTo env sender (Number (inputSum - (amountToSend + feeAmount))) = Some out \<and>
                changeOut = [out]
         else changeOut = []"
    and "signInputs env key
           \<lparr>tx_version = 0, tx_inputs = txInputs, tx_outputs = recipientOut # changeOut\<rparr> 0 txInputs =
         (ts, Inr signedInputs)"
    and "postTransaction env
           (mkRestApiJson 0 signedInputs (map payloadOutput (recipientOut # changeOut))) =
         Some txResponse"
  shows "createTransaction env req =
     ([NewPrivateKey key, GetUtxos sender] @ ts @
      [PostTransaction (mkRestApiJson 0 signedInputs (map payloadOutput (recipientOut # changeOut))),
       GetBalance sender],
      Inr \<lparr>status = ''OK'',
           ok_transactionId = resp_transactionId txResponse,
           ok_rawTransaction = resp_rawTransaction txResponse,
           transferredAmount = BigInt_toString amountToSend,
           chargedAmount = BigInt_toString (amountToSend + feeAmount),
           walletBalance = balanceOf env sender\<rparr>)"
proof (cases "2000000 \<le> inputSum - (amountToSend + feeAmount)")
  case True
  with assms(9) obtain out where
    "payTo env sender (Number (inputSum - (amountToSend + feeAmount))) = Some out"
    "changeOut = [out]" by auto
  with assms(1-8,10,11) True show ?thesis
    by (simp add: createTransaction_def andThen_Inr_case andThen_Inl dustThreshold_eq Let_def)
next
  case False
  with assms(9) have "changeOut = []" by simp
  with assms(1-8,10,11) False show ?thesis
    by (simp add: createTransaction_def andThen_Inr_case andThen_Inl dustThreshold_eq Let_def)
qed

text \<open>What a build that succeeds says of the calls and of the payload.\<close>

lemma createTransaction_InrD:
  assumes "createTransaction env req = (t, Inr body)"
    and "validate req = Inr (sender, recipient, amt, f, key)"
    and "toSompi amt = Some amountToSend" and "toSompi f = Some feeAmount"
    and "getUtxos env sender = Some utxos"
    and "selectInputs utxos (amountToSend + feeAmount) = Some (inputs, inputSum)"
    and "changeAmount = inputSum - (amountToSend + feeAmount)"
  shows "\<exists>p rs.
     t = [NewPrivateKey key, GetUtxos sender] @ map Sign [0 ..< length inputs] @
         [PostTransaction p, GetBalance sender] \<and>
     PrivateKey env key \<and> (\<forall>u\<in>set inputs. accepts_entry env u) \<and>
     addressScript env recipient = Some rs \<and> Output_ok env rs (Number amountToSend) \<and>
     (2000000 \<le> changeAmount \<longrightarrow>
        (\<exists>ss. addressScript env sender = Some ss \<and> Output_ok env ss (Number changeAmount) \<and>
           rest_outputs (rest_transaction p) =
             [\<lparr>out_amount = Number amountToSend,
               out_scriptPublicKey = \<lparr>spk_version = 0, spk_scriptPublicKey = rs\<rparr>\<rparr>,
              \<lparr>out_amount = Number changeAmount,
               out_scriptPublicKey = \<lparr>spk_version = 0, spk_scriptPublicKey = ss\<rparr>\<rparr>])) \<and>
     (changeAmount < 2000000 \<longrightarrow>
        rest_outputs (rest_transaction p) =
          [\<lparr>out_amount = Number amountToSend,
            out_scriptPublicKey = \<lparr>spk_version = 0, spk_scriptPublicKey = rs\<rparr>\<rparr>]) \<and>
     transferredAmount body = BigInt_toString amountToSend \<and>
     chargedAmount body = BigInt_toString (amountToSend + feeAmount)"
  using assms unfolding createTransaction_def
  by (clarsimp simp: andThen_eq_Inr lib_eq_Inr call_eq_Inr Let_def dustThreshold_eq
        mkRestApiJson_def payloadOutput_def
        split: option.splits prod.splits if_splits
        dest!: payTo_SomeD signInputs_trace addInputs_SomeD)


section \<open>The example builds\<close>

lemma addr_eq [simp]: "(addr c = addr d) = (c = d)"
  by (simp add: addr_def)

lemma demo_env_simps [simp]:
  "PrivateKey (demo_env us bal) k"
  "getUtxos (demo_env us bal) (addr CHR ''q'') = Some us"
  "addressScript (demo_env us bal) (addr CHR ''q'') = Some (p2pk CHR ''1'')"
  "addressScript (demo_env us bal) (addr CHR ''p'') = Some (p2pk CHR ''2'')"
  "addressScript (demo_env us bal) (addr CHR ''b'') = None"
  "Output_ok (demo_env us bal) (p2pk CHR ''1'') n = safe_natural n"
  "Output_ok (demo_env us bal) (p2pk CHR ''2'') n = safe_natural n"
  "Input_ok (demo_env us bal) (replicate 64 CHR ''a'') i (p2pk CHR ''1'')"
  "prevTxIdHex (demo_env us bal) = lower_hex"
  "getSignature (demo_env us bal) sk tx i = Some signature0"
  "postTransaction (demo_env us bal) p =
     Some \<lparr>resp_transactionId = JString ''id'', resp_rawTransaction = JString ''raw''\<rparr>"
  "getBalance (demo_env us bal) a = bal"
  by (simp_all add: demo_env_def lower_hex_def hex_digits_def)

lemma demo_checked: "Output_checked (demo_env us bal)"
  by (simp add: Output_checked_def demo_env_def)

lemma coin_at_0: "coin_at 0 c = coin c"
  by (simp add: coin_at_def coin_def)

lemma demo_input_at_0: "demo_input_at 0 c = demo_input c"
  by (simp add: demo_input_at_def demo_input_def)

lemma utxo_amount_coin [simp]: "utxo_amount (coin c) = c" "utxo_amount (coin_at i c) = c"
  by (simp_all add: coin_def coin_at_def)

lemma lower_hex_id: "lower_hex (replicate n CHR ''a'') = replicate n CHR ''a''"
  by (simp add: lower_hex_def)

lemma accepts_coin: "0 \<le> c \<Longrightarrow> c < 2 ^ 53 \<Longrightarrow> accepts_entry (demo_env us bal) (coin_at i c)"
  by (simp add: accepts_entry_def coin_at_def Number_safe_natural)

lemma newInput_demo_at:
  assumes "0 \<le> c" "c < 2 ^ 53"
  shows "newInput (demo_env us bal) (coin_at i c) = Some (demo_input_at i c)"
  using newInput_Some[OF accepts_coin[OF assms, of us bal i]]
  by (simp add: demo_input_at_def coin_at_def lower_hex_id)

lemma newInput_demo:
  "0 \<le> c \<Longrightarrow> c < 2 ^ 53 \<Longrightarrow> newInput (demo_env us bal) (coin c) = Some (demo_input c)"
  using newInput_demo_at[of c us bal 0] by (simp add: coin_at_0 demo_input_at_0)

lemma payTo_demo:
  "0 \<le> n \<Longrightarrow> n < 2 ^ 53 \<Longrightarrow>
   payTo (demo_env us bal) (addr CHR ''p'') (Number n) = Some \<lparr>script = p2pk CHR ''2'', satoshis = Number n\<rparr>"
  "0 \<le> n \<Longrightarrow> n < 2 ^ 53 \<Longrightarrow>
   payTo (demo_env us bal) (addr CHR ''q'') (Number n) = Some \<lparr>script = p2pk CHR ''1'', satoshis = Number n\<rparr>"
  by (simp_all add: payTo_Some Number_safe_natural)

lemma demo_run:
  assumes "\<not> le_zero amt" "\<not> lt_zero f" "toSompi amt = Some a" "toSompi f = Some fe" "a + fe \<le> c"
    and "0 \<le> a" "0 \<le> fe" "c < 2 ^ 53"
  shows "createTransaction (demo_env [coin c] bal) (demo_request amt f) =
     ([NewPrivateKey ''key'', GetUtxos (addr CHR ''q''), Sign 0,
       PostTransaction (demo_payload c a fe), GetBalance (addr CHR ''q'')],
      Inr \<lparr>status = ''OK'', ok_transactionId = JString ''id'', ok_rawTransaction = JString ''raw'',
           transferredAmount = BigInt_toString a,
           chargedAmount = BigInt_toString (a + fe),
           walletBalance = (case bal of None \<Rightarrow> JNull | Some b \<Rightarrow> b)\<rparr>)"
proof -
  from assms(5-8) have c: "0 \<le> c" and a: "a < 2 ^ 53"
    and ch: "0 \<le> c - (a + fe)" "c - (a + fe) < 2 ^ 53" by simp_all
  show ?thesis
    using assms(1-5)
    by (simp add: createTransaction_def validate_demo andThen_Inr_case andThen_Inl
        selectInputs_single dustThreshold_eq demo_payload_def balanceOf_def Let_def
        newInput_demo[OF c assms(8)] payTo_demo(1)[OF assms(6) a] payTo_demo(2)[OF ch])
qed

lemma demo_run_fee:
  "createTransaction (demo_env [coin 150000000] bal)
      (demo_request (Fin 1 0) (Fin 7378697629483821 (- 66))) =
     ([NewPrivateKey ''key'', GetUtxos (addr CHR ''q''), Sign 0,
       PostTransaction (demo_payload 150000000 100000000 10000), GetBalance (addr CHR ''q'')],
      Inr \<lparr>status = ''OK'', ok_transactionId = JString ''id'', ok_rawTransaction = JString ''raw'',
           transferredAmount = BigInt_toString 100000000,
           chargedAmount = BigInt_toString (100000000 + 10000),
           walletBalance = (case bal of None \<Rightarrow> JNull | Some b \<Rightarrow> b)\<rparr>)"
  by (rule demo_run) (simp_all add: toSompi_1 toSompi_fee)

lemma demo_signatures:
  "\<forall>sk tx i sg. getSignature (demo_env us bal) sk tx i = Some sg \<longrightarrow>
     length sg = 128 \<and> set sg \<subseteq> set hex_digits"
  by (simp add: signature0_def hex_digits_def)

lemma demo_payload_scripts:
  "map signatureScript (rest_inputs (rest_transaction (demo_payload c a fe))) =
     [''41'' @ signature0 @ ''01'']"
  by (simp add: demo_payload_def mkRestApiJson_def signedInput_def)



section \<open>The handler with one input: its steps\<close>

lemma signInputs0_events:
  "signInputs0 env sk tx xs = (t, r) \<Longrightarrow> set t \<subseteq> {Sign 0}"
proof (induction xs arbitrary: t r)
  case Nil
  then show ?case by simp
next
  case (Cons x xs)
  show ?case
  proof (cases "getSignature env sk tx 0")
    case None
    with Cons.prems show ?thesis by (auto simp: andThen_Inl)
  next
    case (Some sg)
    obtain t' r' where r: "signInputs0 env sk tx xs = (t', r')" by (cases "signInputs0 env sk tx xs")
    from Cons.IH[OF r] have "set t' \<subseteq> {Sign 0}" .
    with Cons.prems Some r show ?thesis
      by (cases r') (auto simp: andThen_Inr_case andThen_Inl)
  qed
qed

lemma signInputs0_no_post:
  "signInputs0 env sk tx xs = (t, r) \<Longrightarrow> PostTransaction p \<notin> set t"
  using signInputs0_events by fastforce



lemma find_single: "100000 \<le> c \<Longrightarrow> find suitable [coin c] = Some (coin c)"
  by (simp add: suitable_def)


text \<open>A build of the handler with one input, when every call succeeds.\<close>

lemma index_run:
  assumes "validate req = Inr (sender, recipient, amt, f, key)"
    and "PrivateKey env key" and "getUtxos env sender = Some utxos"
    and "find suitable utxos = Some u"
    and "newInput env u = Some txInput"
    and "toSompi amt = Some a" and "toSompi f = Some fe"
    and "payTo env recipient (Number a) = Some txOutput"
    and "payTo env sender (Number (utxo_amount u - a - fe)) = Some txChange"
    and "getSignature env key
           \<lparr>tx_version = 0, tx_inputs = [txInput], tx_outputs = [txOutput, txChange]\<rparr> 0 = Some sg"
    and "p = mkRestApiJson 0 [signedInput txInput sg]
           [\<lparr>out_amount = Number a,
             out_scriptPublicKey = \<lparr>spk_version = 0, spk_scriptPublicKey = script txOutput\<rparr>\<rparr>,
            \<lparr>out_amount = Number (utxo_amount u - a - fe),
             out_scriptPublicKey = \<lparr>spk_version = 0, spk_scriptPublicKey = script txChange\<rparr>\<rparr>]"
    and "postTransaction env p = Some txResponse"
  shows "createTransaction_index env req =
     ([NewPrivateKey key, GetUtxos sender,
       ConsoleLog ''UTXO amount (sompi):'' (utxo_amount u), ConsoleLog ''AmountToSend:'' a,
       ConsoleLog ''FeeAmount:'' fe, ConsoleLog ''ChangeAmount:'' (utxo_amount u - a - fe),
       Sign 0, PostTransaction p, GetBalance sender],
      Inr \<lparr>status = ''OK'',
           ok_transactionId = resp_transactionId txResponse,
           ok_rawTransaction = resp_rawTransaction txResponse,
           transferredAmount = BigInt_toString a,
           chargedAmount = BigInt_toString (a + fe),
           walletBalance = balanceOf env sender\<rparr>)"
  using assms
  by (simp add: createTransaction_index_def andThen_Inr_case andThen_Inl Let_def)

text \<open>
  A selected entry that does not cover amount and fee: the change is negative, the
  library refuses it as the amount of the change output, and the handler answers 500
  before anything is signed or sent.
\<close>

lemma index_negative_change:
  assumes "validate req = Inr (sender, recipient, amt, f, key)"
    and "PrivateKey env key" and "getUtxos env sender = Some utxos"
    and "find suitable utxos = Some u"
    and "toSompi amt = Some a" and "toSompi f = Some fe"
    and "utxo_amount u - a - fe < 0"
    and "Output_checked env"
  shows "createTransaction_index env req =
     ([NewPrivateKey key, GetUtxos sender] @
      (if accepts_entry env u
       then [ConsoleLog ''UTXO amount (sompi):'' (utxo_amount u), ConsoleLog ''AmountToSend:'' a,
             ConsoleLog ''FeeAmount:'' fe, ConsoleLog ''ChangeAmount:'' (utxo_amount u - a - fe)]
       else []),
      Inl Error500)"
proof -
  have "\<forall>s. \<not> Output_ok env s (Number (utxo_amount u - a - fe))"
  proof (intro allI notI)
    fix s assume "Output_ok env s (Number (utxo_amount u - a - fe))"
    from Output_checked_Number(1)[OF assms(8) this] assms(7) show False by simp
  qed
  then have r: "payTo env sender (Number (utxo_amount u - a - fe)) = None"
    by (rule payTo_refused)
  show ?thesis
  proof (cases "accepts_entry env u")
    case False
    with assms(1-6) show ?thesis
      by (simp add: createTransaction_index_def andThen_Inr_case andThen_Inl newInput_None)
  next
    case True
    show ?thesis
    proof (cases "payTo env recipient (Number a)")
      case None
      with True assms(1-6) show ?thesis
        by (simp add: createTransaction_index_def andThen_Inr_case andThen_Inl newInput_Some
            Let_def)
    next
      case (Some out)
      with True r assms(1-6) show ?thesis
        by (simp add: createTransaction_index_def andThen_Inr_case andThen_Inl newInput_Some
            Let_def)
    qed
  qed
qed

text \<open>What a payload that was sent says of the build.\<close>

lemma index_outputs:
  assumes "PostTransaction p \<in> set (fst (createTransaction_index env req))"
    and "validate req = Inr (sender, recipient, amt, f, key)"
    and "getUtxos env sender = Some utxos"
    and "find suitable utxos = Some selectedUtxo"
    and "toSompi amt = Some amountToSend" and "toSompi f = Some feeAmount"
    and "changeAmount = utxo_amount selectedUtxo - amountToSend - feeAmount"
  shows "\<exists>rs ss. addressScript env recipient = Some rs \<and> addressScript env sender = Some ss \<and>
           Output_ok env ss (Number changeAmount) \<and>
           rest_outputs (rest_transaction p) =
             [\<lparr>out_amount = Number amountToSend,
               out_scriptPublicKey = \<lparr>spk_version = 0, spk_scriptPublicKey = rs\<rparr>\<rparr>,
              \<lparr>out_amount = Number changeAmount,
               out_scriptPublicKey = \<lparr>spk_version = 0, spk_scriptPublicKey = ss\<rparr>\<rparr>]"
proof -
  obtain t r where tr: "createTransaction_index env req = (t, r)"
    by (cases "createTransaction_index env req")
  with assms(1) have m: "PostTransaction p \<in> set t" by simp
  show ?thesis
  proof (cases r)
    case (Inr body)
    with tr m assms(2-7) show ?thesis
      unfolding createTransaction_index_def
      by (clarsimp simp: andThen_eq_Inr lib_eq_Inr call_eq_Inr Let_def mkRestApiJson_def
          split: option.splits prod.splits if_splits
          dest!: payTo_SomeD;
          auto dest: signInputs0_no_post)
  next
    case (Inl e)
    with tr m assms(2-7) show ?thesis
      unfolding createTransaction_index_def
      by (auto simp: andThen_eq_Inr lib_eq_Inr call_eq_Inr andThen_eq_Inl lib_eq_Inl call_eq_Inl
          Let_def mkRestApiJson_def
          split: option.splits prod.splits if_splits
          dest!: payTo_SomeD dest: signInputs0_no_post)
  qed
qed




text \<open>The example builds of the handler with one input.\<close>

lemma demo_run_index:
  assumes "\<not> le_zero amt" "\<not> lt_zero f" "toSompi amt = Some a" "toSompi f = Some fe"
    and "find suitable us = Some (coin_at i c)"
    and "0 \<le> a" "0 \<le> fe" "a + fe \<le> c" "c < 2 ^ 53"
  shows "createTransaction_index (demo_env us bal) (demo_request amt f) =
     ([NewPrivateKey ''key'', GetUtxos (addr CHR ''q'')] @ demo_log c a fe @
      [Sign 0, PostTransaction (demo_payload_index i c a fe), GetBalance (addr CHR ''q'')],
      Inr \<lparr>status = ''OK'', ok_transactionId = JString ''id'', ok_rawTransaction = JString ''raw'',
           transferredAmount = BigInt_toString a,
           chargedAmount = BigInt_toString (a + fe),
           walletBalance = (case bal of None \<Rightarrow> JNull | Some b \<Rightarrow> b)\<rparr>)"
proof -
  from assms(6-9) have c: "0 \<le> c" and a: "a < 2 ^ 53"
    and ch: "0 \<le> c - a - fe" "c - a - fe < 2 ^ 53" by simp_all
  have v: "validate (demo_request amt f) = Inr (addr CHR ''q'', addr CHR ''p'', amt, f, ''key'')"
    using assms(1,2) by (rule validate_demo)
  have p: "demo_payload_index i c a fe = mkRestApiJson 0 [signedInput (demo_input_at i c) signature0]
           [\<lparr>out_amount = Number a,
             out_scriptPublicKey = \<lparr>spk_version = 0,
               spk_scriptPublicKey = script \<lparr>script = p2pk CHR ''2'', satoshis = Number a\<rparr>\<rparr>\<rparr>,
            \<lparr>out_amount = Number (utxo_amount (coin_at i c) - a - fe),
             out_scriptPublicKey = \<lparr>spk_version = 0,
               spk_scriptPublicKey =
                 script \<lparr>script = p2pk CHR ''1'', satoshis = Number (c - a - fe)\<rparr>\<rparr>\<rparr>]"
    by (simp add: demo_payload_index_def)
  have "createTransaction_index (demo_env us bal) (demo_request amt f) =
     ([NewPrivateKey ''key'', GetUtxos (addr CHR ''q''),
       ConsoleLog ''UTXO amount (sompi):'' (utxo_amount (coin_at i c)), ConsoleLog ''AmountToSend:'' a,
       ConsoleLog ''FeeAmount:'' fe, ConsoleLog ''ChangeAmount:'' (utxo_amount (coin_at i c) - a - fe),
       Sign 0, PostTransaction (demo_payload_index i c a fe), GetBalance (addr CHR ''q'')],
      Inr \<lparr>status = ''OK'',
           ok_transactionId = resp_transactionId
             \<lparr>resp_transactionId = JString ''id'', resp_rawTransaction = JString ''raw''\<rparr>,
           ok_rawTransaction = resp_rawTransaction
             \<lparr>resp_transactionId = JString ''id'', resp_rawTransaction = JString ''raw''\<rparr>,
           transferredAmount = BigInt_toString a,
           chargedAmount = BigInt_toString (a + fe),
           walletBalance = balanceOf (demo_env us bal) (addr CHR ''q'')\<rparr>)"
    by (rule index_run[OF v _ _ assms(5) newInput_demo_at[OF c assms(9)] assms(3,4)
          payTo_demo(1)[OF assms(6) a] _ _ p]) (simp_all add: payTo_demo(2)[OF ch])
  then show ?thesis by (simp add: demo_log_def balanceOf_def)
qed

lemma demo_run_index_negative:
  assumes "\<not> le_zero amt" "\<not> lt_zero f" "toSompi amt = Some a" "toSompi f = Some fe"
    and "find suitable us = Some (coin_at i c)"
    and "0 \<le> c" "c < 2 ^ 53" "c - a - fe < 0"
  shows "createTransaction_index (demo_env us bal) (demo_request amt f) =
     ([NewPrivateKey ''key'', GetUtxos (addr CHR ''q'')] @ demo_log c a fe, Inl Error500)"
proof -
  have v: "validate (demo_request amt f) = Inr (addr CHR ''q'', addr CHR ''p'', amt, f, ''key'')"
    using assms(1,2) by (rule validate_demo)
  have n: "utxo_amount (coin_at i c) - a - fe < 0" using assms(8) by simp
  have k: "PrivateKey (demo_env us bal) ''key''"
    and g: "getUtxos (demo_env us bal) (addr CHR ''q'') = Some us" by simp_all
  from index_negative_change[OF v k g assms(5) assms(3,4) n demo_checked]
    accepts_coin[OF assms(6,7), of us bal i]
  show ?thesis by (simp add: demo_log_def)
qed

section \<open>The claims\<close>

text \<open>
  C1. Value conservation. The handler computes the change as the sum of the selected
  inputs minus amount and fee, in BigInts, and writes \<^verbatim>\<open>Number(amountToSend)\<close> and
  \<^verbatim>\<open>Number(changeAmount)\<close> into the outputs. The library takes a natural number below
  \<open>2 ^ 53\<close> as the amount of an output and throws on every other Number (the hypothesis
  \<open>Output_checked\<close>), so that an amount of a build that succeeds is the integer it was
  made of. For every build that succeeds, the amounts of the outputs of the payload, the
  fee, and the change that was forfeited for being below the dust threshold add up to the
  sum of the selected inputs.
\<close>

theorem value_conservation:
  assumes "createTransaction env req = (t, Inr body)"
    and "validate req = Inr (sender, recipient, amt, f, key)"
    and "toSompi amt = Some amountToSend" and "toSompi f = Some feeAmount"
    and "getUtxos env sender = Some utxos"
    and "selectInputs utxos (amountToSend + feeAmount) = Some (inputs, inputSum)"
    and "changeAmount = inputSum - (amountToSend + feeAmount)"
    and "Output_checked env"
  shows "\<exists>p. t = [NewPrivateKey key, GetUtxos sender] @ map Sign [0 ..< length inputs] @
               [PostTransaction p, GetBalance sender] \<and>
           outputSum p + feeAmount + (if changeAmount < 2000000 then changeAmount else 0) =
           psum inputs"
proof -
  from createTransaction_InrD[OF assms(1-7)] obtain p rs where
    t: "t = [NewPrivateKey key, GetUtxos sender] @ map Sign [0 ..< length inputs] @
         [PostTransaction p, GetBalance sender]"
    and a: "Output_ok env rs (Number amountToSend)"
    and c: "2000000 \<le> changeAmount \<longrightarrow>
        (\<exists>ss. addressScript env sender = Some ss \<and> Output_ok env ss (Number changeAmount) \<and>
           rest_outputs (rest_transaction p) =
             [\<lparr>out_amount = Number amountToSend,
               out_scriptPublicKey = \<lparr>spk_version = 0, spk_scriptPublicKey = rs\<rparr>\<rparr>,
              \<lparr>out_amount = Number changeAmount,
               out_scriptPublicKey = \<lparr>spk_version = 0, spk_scriptPublicKey = ss\<rparr>\<rparr>])"
    and d: "changeAmount < 2000000 \<longrightarrow>
        rest_outputs (rest_transaction p) =
          [\<lparr>out_amount = Number amountToSend,
            out_scriptPublicKey = \<lparr>spk_version = 0, spk_scriptPublicKey = rs\<rparr>\<rparr>]"
    by (elim exE conjE) (rule that)
  from selectInputs_Some[OF assms(6)] have s: "inputSum = psum inputs" by auto
  note va = Output_checked_Number(4)[OF assms(8) a]
  have "outputSum p + feeAmount + (if changeAmount < 2000000 then changeAmount else 0) =
      psum inputs"
  proof (cases "changeAmount < 2000000")
    case True
    with d va assms(7) s show ?thesis by (simp add: outputSum_def)
  next
    case False
    with c obtain ss where ok: "Output_ok env ss (Number changeAmount)"
      and o: "rest_outputs (rest_transaction p) =
             [\<lparr>out_amount = Number amountToSend,
               out_scriptPublicKey = \<lparr>spk_version = 0, spk_scriptPublicKey = rs\<rparr>\<rparr>,
              \<lparr>out_amount = Number changeAmount,
               out_scriptPublicKey = \<lparr>spk_version = 0, spk_scriptPublicKey = ss\<rparr>\<rparr>]"
      by auto
    note vc = Output_checked_Number(4)[OF assms(8) ok]
    from False o va vc assms(7) s show ?thesis by (simp add: outputSum_def)
  qed
  with t show ?thesis by blast
qed

text \<open>
  Two builds of the example: one with a change output, and one whose change of 990000 is
  forfeited.
\<close>

theorem value_conservation_witness:
  "createTransaction (demo_env [coin 150000000] None)
      (demo_request (Fin 1 0) (Fin 7378697629483821 (- 66))) =
     ([NewPrivateKey ''key'', GetUtxos (addr CHR ''q''), Sign 0,
       PostTransaction (demo_payload 150000000 100000000 10000), GetBalance (addr CHR ''q'')],
      Inr \<lparr>status = ''OK'', ok_transactionId = JString ''id'', ok_rawTransaction = JString ''raw'',
           transferredAmount = BigInt_toString 100000000,
           chargedAmount = BigInt_toString (100000000 + 10000),
           walletBalance = JNull\<rparr>) \<and>
   outputSum (demo_payload 150000000 100000000 10000) + 10000 + 0 = psum [coin 150000000] \<and>
   createTransaction (demo_env [coin 101000000] None)
      (demo_request (Fin 1 0) (Fin 7378697629483821 (- 66))) =
     ([NewPrivateKey ''key'', GetUtxos (addr CHR ''q''), Sign 0,
       PostTransaction (demo_payload 101000000 100000000 10000), GetBalance (addr CHR ''q'')],
      Inr \<lparr>status = ''OK'', ok_transactionId = JString ''id'', ok_rawTransaction = JString ''raw'',
           transferredAmount = BigInt_toString 100000000,
           chargedAmount = BigInt_toString (100000000 + 10000),
           walletBalance = JNull\<rparr>) \<and>
   length (rest_outputs (rest_transaction (demo_payload 101000000 100000000 10000))) = 1 \<and>
   outputSum (demo_payload 101000000 100000000 10000) + 10000 + 990000 = psum [coin 101000000]"
proof -
  have run2: "createTransaction (demo_env [coin 101000000] None)
      (demo_request (Fin 1 0) (Fin 7378697629483821 (- 66))) =
     ([NewPrivateKey ''key'', GetUtxos (addr CHR ''q''), Sign 0,
       PostTransaction (demo_payload 101000000 100000000 10000), GetBalance (addr CHR ''q'')],
      Inr \<lparr>status = ''OK'', ok_transactionId = JString ''id'', ok_rawTransaction = JString ''raw'',
           transferredAmount = BigInt_toString 100000000,
           chargedAmount = BigInt_toString (100000000 + 10000),
           walletBalance = (case None of None \<Rightarrow> JNull | Some b \<Rightarrow> b)\<rparr>)"
    by (rule demo_run) (simp_all add: toSompi_1 toSompi_fee)
  have g: "getUtxos (demo_env us None) (addr CHR ''q'') = Some us" for us by simp
  have s2: "selectInputs [coin 101000000] (100000000 + 10000) = Some ([coin 101000000], 101000000)"
    by (rule selectInputs_single) simp
  have l: "length (rest_outputs (rest_transaction (demo_payload 101000000 100000000 10000))) = 1"
    by (simp add: demo_payload_def mkRestApiJson_def)
  from value_conservation[OF demo_run_fee[of None] demo_validate toSompi_1 toSompi_fee g demo_select
      refl demo_checked]
    value_conservation[OF run2 demo_validate toSompi_1 toSompi_fee g s2 refl demo_checked]
    demo_run_fee[of None] run2 l
  show ?thesis by simp
qed

text \<open>
  C2. The selection adds the candidates in the order of the ledger's answer, one by one,
  and stops at the first running sum that reaches the target \<open>amount + fee\<close>. For a
  positive target and candidates whose total reaches it, the selection succeeds with a
  prefix of the candidates, the sum of the prefix reaches the target, and every shorter
  prefix (the selection without its last entry among them) stays below it. When no prefix
  reaches the target, the handler answers "Insufficient UTXOs for requested amount" after
  the key construction and the ledger read, and nothing is signed or sent.
\<close>

theorem greedy_selection:
  "(0 < target \<and> target \<le> psum candidates \<longrightarrow>
      (\<exists>n. 0 < n \<and> n \<le> length candidates \<and>
           selectInputs candidates target = Some (take n candidates, psum (take n candidates)) \<and>
           target \<le> psum (take n candidates) \<and>
           psum (butlast (take n candidates)) < target \<and>
           (\<forall>j<n. psum (take j candidates) < target))) \<and>
   (validate req = Inr (sender, recipient, amt, f, key) \<and>
    toSompi amt = Some amountToSend \<and> toSompi f = Some feeAmount \<and>
    PrivateKey env key \<and> getUtxos env sender = Some utxos \<and>
    (\<forall>n\<le>length utxos. psum (take n utxos) < amountToSend + feeAmount) \<longrightarrow>
      selectInputs utxos (amountToSend + feeAmount) = None \<and>
      createTransaction env req =
        ([NewPrivateKey key, GetUtxos sender],
         Inl (Error400 ''Insufficient UTXOs for requested amount'')))"
proof (intro conjI impI)
  assume "0 < target \<and> target \<le> psum candidates"
  then show "\<exists>n. 0 < n \<and> n \<le> length candidates \<and>
           selectInputs candidates target = Some (take n candidates, psum (take n candidates)) \<and>
           target \<le> psum (take n candidates) \<and>
           psum (butlast (take n candidates)) < target \<and>
           (\<forall>j<n. psum (take j candidates) < target)"
    using selectInputs_total by blast
next
  assume a: "validate req = Inr (sender, recipient, amt, f, key) \<and>
    toSompi amt = Some amountToSend \<and> toSompi f = Some feeAmount \<and>
    PrivateKey env key \<and> getUtxos env sender = Some utxos \<and>
    (\<forall>n\<le>length utxos. psum (take n utxos) < amountToSend + feeAmount)"
  then show n: "selectInputs utxos (amountToSend + feeAmount) = None"
    using selectInputs_exhausted by blast
  from a n show "createTransaction env req =
        ([NewPrivateKey key, GetUtxos sender],
         Inl (Error400 ''Insufficient UTXOs for requested amount''))"
    using createTransaction_insufficient by blast
qed

theorem greedy_selection_witness:
  "0 < (100 :: int) \<and> 100 \<le> psum [coin 60, coin 50, coin 70] \<and>
   (\<exists>n. 0 < n \<and> n \<le> length [coin 60, coin 50, coin 70] \<and>
        selectInputs [coin 60, coin 50, coin 70] 100 =
          Some (take n [coin 60, coin 50, coin 70], psum (take n [coin 60, coin 50, coin 70])) \<and>
        100 \<le> psum (take n [coin 60, coin 50, coin 70]) \<and>
        psum (butlast (take n [coin 60, coin 50, coin 70])) < 100 \<and>
        (\<forall>j<n. psum (take j [coin 60, coin 50, coin 70]) < 100)) \<and>
   selectInputs [coin 50000000] (100000000 + 0) = None \<and>
   createTransaction (demo_env [coin 50000000] None) (demo_request (Fin 1 0) (Fin 0 0)) =
     ([NewPrivateKey ''key'', GetUtxos (addr CHR ''q'')],
      Inl (Error400 ''Insufficient UTXOs for requested amount''))"
proof -
  have h1: "0 < (100 :: int) \<and> 100 \<le> psum [coin 60, coin 50, coin 70]"
    by (simp add: coin_def)
  have h3: "\<forall>n\<le>length [coin 50000000]. psum (take n [coin 50000000]) < 100000000 + 0"
    unfolding all_prefixes_single by (simp add: coin_def)
  have h2: "validate (demo_request (Fin 1 0) (Fin 0 0)) =
              Inr (addr CHR ''q'', addr CHR ''p'', Fin 1 0, Fin 0 0, ''key'') \<and>
    toSompi (Fin 1 0) = Some 100000000 \<and> toSompi (Fin 0 0) = Some 0 \<and>
    PrivateKey (demo_env [coin 50000000] None) ''key'' \<and>
    getUtxos (demo_env [coin 50000000] None) (addr CHR ''q'') = Some [coin 50000000] \<and>
    (\<forall>n\<le>length [coin 50000000]. psum (take n [coin 50000000]) < 100000000 + 0)"
    using h3 by (simp add: validate_demo toSompi_1 toSompi_0 demo_env_def)
  from greedy_selection[of 100 "[coin 60, coin 50, coin 70]"
      "demo_request (Fin 1 0) (Fin 0 0)" "addr CHR ''q''" "addr CHR ''p''" "Fin 1 0" "Fin 0 0"
      "''key''" 100000000 0 "demo_env [coin 50000000] None" "[coin 50000000]"]
    h1 h2
  show ?thesis by blast
qed

text \<open>
  The claim without the positive target fails: the amount \<^verbatim>\<open>1e-9\<close> passes the validation
  and is converted to 0, the loop adds the first candidate before it compares, and the
  selection without its last entry sums to 0, which is not below the target 0.
\<close>

theorem greedy_selection_counterexample:
  "\<not> le_zero (Fin 4835703278458517 (- 82)) \<and>
   toSompi (Fin 4835703278458517 (- 82)) = Some 0 \<and>
   toSompi (Fin 0 0) = Some 0 \<and>
   0 + 0 \<le> psum [coin 5] \<and>
   selectInputs [coin 5] (0 + 0) = Some ([coin 5], 5) \<and>
   \<not> psum (butlast [coin 5]) < 0 + 0"
proof -
  have "toSompi (Fin 4835703278458517 (- 82)) = Some 0"
    unfolding toSompi_def by code_simp
  then show ?thesis
    by (simp add: toSompi_0 selectInputs_def coin_def)
qed

text \<open>
  C3. The payload of a build that succeeds has the recipient output first, and after it
  a change output paid to the sender address exactly when the change,
  \<open>inputSum - (amountToSend + feeAmount)\<close>, is at least 2000000. A build does succeed on
  either side of the threshold when the calls of the library and of the network succeed:
  below it the payload with the recipient output alone is sent, and the response gives
  the amount transferred and the amount charged, amount plus fee, and says nothing of the
  change.
\<close>

theorem change_output_iff_dust:
  assumes "validate req = Inr (sender, recipient, amt, f, key)"
    and "toSompi amt = Some amountToSend" and "toSompi f = Some feeAmount"
    and "getUtxos env sender = Some utxos"
    and "selectInputs utxos (amountToSend + feeAmount) = Some (inputs, inputSum)"
    and "changeAmount = inputSum - (amountToSend + feeAmount)"
  shows
   "(createTransaction env req = (t, Inr body) \<longrightarrow>
       (\<exists>p rs. addressScript env recipient = Some rs \<and>
           t = [NewPrivateKey key, GetUtxos sender] @ map Sign [0 ..< length inputs] @
               [PostTransaction p, GetBalance sender] \<and>
           (2000000 \<le> changeAmount \<longrightarrow>
              (\<exists>ss. addressScript env sender = Some ss \<and>
                 rest_outputs (rest_transaction p) =
                   [\<lparr>out_amount = Number amountToSend,
                     out_scriptPublicKey = \<lparr>spk_version = 0, spk_scriptPublicKey = rs\<rparr>\<rparr>,
                    \<lparr>out_amount = Number changeAmount,
                     out_scriptPublicKey = \<lparr>spk_version = 0, spk_scriptPublicKey = ss\<rparr>\<rparr>])) \<and>
           (changeAmount < 2000000 \<longrightarrow>
              rest_outputs (rest_transaction p) =
                [\<lparr>out_amount = Number amountToSend,
                  out_scriptPublicKey = \<lparr>spk_version = 0, spk_scriptPublicKey = rs\<rparr>\<rparr>]))) \<and>
    (PrivateKey env key \<and> (\<forall>u\<in>set inputs. accepts_entry env u) \<and>
     addressScript env recipient = Some rs' \<and> Output_ok env rs' (Number amountToSend) \<and>
     (2000000 \<le> changeAmount \<longrightarrow>
        addressScript env sender = Some ss' \<and> Output_ok env ss' (Number changeAmount)) \<and>
     (\<forall>tx i. getSignature env key tx i \<noteq> None) \<and> (\<forall>p. postTransaction env p \<noteq> None) \<longrightarrow>
       (\<exists>t' body' p.
           createTransaction env req = (t', Inr body') \<and>
           t' = [NewPrivateKey key, GetUtxos sender] @ map Sign [0 ..< length inputs] @
                [PostTransaction p, GetBalance sender] \<and>
           rest_outputs (rest_transaction p) =
             \<lparr>out_amount = Number amountToSend,
               out_scriptPublicKey = \<lparr>spk_version = 0, spk_scriptPublicKey = rs'\<rparr>\<rparr> #
             (if 2000000 \<le> changeAmount
              then [\<lparr>out_amount = Number changeAmount,
                     out_scriptPublicKey = \<lparr>spk_version = 0, spk_scriptPublicKey = ss'\<rparr>\<rparr>]
              else []) \<and>
           transferredAmount body' = BigInt_toString amountToSend \<and>
           chargedAmount body' = BigInt_toString (amountToSend + feeAmount)))"
proof (intro conjI impI)
  assume "createTransaction env req = (t, Inr body)"
  with assms show "\<exists>p rs. addressScript env recipient = Some rs \<and>
           t = [NewPrivateKey key, GetUtxos sender] @ map Sign [0 ..< length inputs] @
               [PostTransaction p, GetBalance sender] \<and>
           (2000000 \<le> changeAmount \<longrightarrow>
              (\<exists>ss. addressScript env sender = Some ss \<and>
                 rest_outputs (rest_transaction p) =
                   [\<lparr>out_amount = Number amountToSend,
                     out_scriptPublicKey = \<lparr>spk_version = 0, spk_scriptPublicKey = rs\<rparr>\<rparr>,
                    \<lparr>out_amount = Number changeAmount,
                     out_scriptPublicKey = \<lparr>spk_version = 0, spk_scriptPublicKey = ss\<rparr>\<rparr>])) \<and>
           (changeAmount < 2000000 \<longrightarrow>
              rest_outputs (rest_transaction p) =
                [\<lparr>out_amount = Number amountToSend,
                  out_scriptPublicKey = \<lparr>spk_version = 0, spk_scriptPublicKey = rs\<rparr>\<rparr>])"
    using createTransaction_InrD[of env req t body sender recipient amt f key amountToSend
        feeAmount utxos inputs inputSum changeAmount]
    by blast
next
  assume a: "PrivateKey env key \<and> (\<forall>u\<in>set inputs. accepts_entry env u) \<and>
     addressScript env recipient = Some rs' \<and> Output_ok env rs' (Number amountToSend) \<and>
     (2000000 \<le> changeAmount \<longrightarrow>
        addressScript env sender = Some ss' \<and> Output_ok env ss' (Number changeAmount)) \<and>
     (\<forall>tx i. getSignature env key tx i \<noteq> None) \<and> (\<forall>p. postTransaction env p \<noteq> None)"
  then have k: "PrivateKey env key"
    and i: "\<forall>u\<in>set inputs. accepts_entry env u"
    and r: "addressScript env recipient = Some rs'" "Output_ok env rs' (Number amountToSend)"
    and c: "2000000 \<le> changeAmount \<longrightarrow>
        addressScript env sender = Some ss' \<and> Output_ok env ss' (Number changeAmount)"
    and sg: "\<forall>tx i. getSignature env key tx i \<noteq> None"
    and po: "\<forall>p. postTransaction env p \<noteq> None" by simp_all
  from addInputs_Some[OF i] obtain txInputs where ai: "addInputs env inputs = Some txInputs" ..
  from addInputs_length[OF ai] have len: "length txInputs = length inputs" .
  define recipientOut where "recipientOut = \<lparr>script = rs', satoshis = Number amountToSend\<rparr>"
  define changeOut where "changeOut =
    (if 2000000 \<le> changeAmount then [\<lparr>script = ss', satoshis = Number changeAmount\<rparr>] else [])"
  have pr: "payTo env recipient (Number amountToSend) = Some recipientOut"
    unfolding recipientOut_def using r by (rule payTo_Some)
  have pc: "if 2000000 \<le> inputSum - (amountToSend + feeAmount)
         then \<exists>out. payTo env sender (Number (inputSum - (amountToSend + feeAmount))) = Some out \<and>
                changeOut = [out]
         else changeOut = []"
    using c unfolding changeOut_def assms(6) by (simp add: payTo_Some)
  from signInputs_succeeds[OF sg] obtain signedInputs where
    si: "signInputs env key
           \<lparr>tx_version = 0, tx_inputs = txInputs, tx_outputs = recipientOut # changeOut\<rparr> 0 txInputs =
         (map Sign [0 ..< 0 + length txInputs], Inr signedInputs)" ..
  define p where "p = mkRestApiJson 0 signedInputs (map payloadOutput (recipientOut # changeOut))"
  from po obtain txResponse where pt: "postTransaction env p = Some txResponse" by fastforce
  note run = createTransaction_run[OF assms(1-3) k assms(4,5) ai pr pc si pt[unfolded p_def]]
  have o: "rest_outputs (rest_transaction p) =
             \<lparr>out_amount = Number amountToSend,
               out_scriptPublicKey = \<lparr>spk_version = 0, spk_scriptPublicKey = rs'\<rparr>\<rparr> #
             (if 2000000 \<le> changeAmount
              then [\<lparr>out_amount = Number changeAmount,
                     out_scriptPublicKey = \<lparr>spk_version = 0, spk_scriptPublicKey = ss'\<rparr>\<rparr>]
              else [])"
    by (simp add: p_def mkRestApiJson_def payloadOutput_def recipientOut_def changeOut_def)
  from run o len show "\<exists>t' body' p.
           createTransaction env req = (t', Inr body') \<and>
           t' = [NewPrivateKey key, GetUtxos sender] @ map Sign [0 ..< length inputs] @
                [PostTransaction p, GetBalance sender] \<and>
           rest_outputs (rest_transaction p) =
             \<lparr>out_amount = Number amountToSend,
               out_scriptPublicKey = \<lparr>spk_version = 0, spk_scriptPublicKey = rs'\<rparr>\<rparr> #
             (if 2000000 \<le> changeAmount
              then [\<lparr>out_amount = Number changeAmount,
                     out_scriptPublicKey = \<lparr>spk_version = 0, spk_scriptPublicKey = ss'\<rparr>\<rparr>]
              else []) \<and>
           transferredAmount body' = BigInt_toString amountToSend \<and>
           chargedAmount body' = BigInt_toString (amountToSend + feeAmount)"
    unfolding p_def[symmetric] by simp
qed

text \<open>
  Two builds of the example: with a change of 990000 the recipient output alone is sent,
  with a change of 49990000 the change output follows it.
\<close>

theorem change_output_iff_dust_witness:
  "(\<exists>t' body' p.
      createTransaction (demo_env [coin 101000000] None)
        (demo_request (Fin 1 0) (Fin 7378697629483821 (- 66))) = (t', Inr body') \<and>
      t' = [NewPrivateKey ''key'', GetUtxos (addr CHR ''q''), Sign 0, PostTransaction p,
            GetBalance (addr CHR ''q'')] \<and>
      rest_outputs (rest_transaction p) =
        [\<lparr>out_amount = Number 100000000,
          out_scriptPublicKey = \<lparr>spk_version = 0, spk_scriptPublicKey = p2pk CHR ''2''\<rparr>\<rparr>] \<and>
      transferredAmount body' = BigInt_toString 100000000 \<and>
      chargedAmount body' = BigInt_toString (100000000 + 10000)) \<and>
   createTransaction (demo_env [coin 150000000] None)
      (demo_request (Fin 1 0) (Fin 7378697629483821 (- 66))) =
     ([NewPrivateKey ''key'', GetUtxos (addr CHR ''q''), Sign 0,
       PostTransaction (demo_payload 150000000 100000000 10000), GetBalance (addr CHR ''q'')],
      Inr \<lparr>status = ''OK'', ok_transactionId = JString ''id'', ok_rawTransaction = JString ''raw'',
           transferredAmount = BigInt_toString 100000000,
           chargedAmount = BigInt_toString (100000000 + 10000),
           walletBalance = JNull\<rparr>) \<and>
   rest_outputs (rest_transaction (demo_payload 150000000 100000000 10000)) =
     [\<lparr>out_amount = Number 100000000,
       out_scriptPublicKey = \<lparr>spk_version = 0, spk_scriptPublicKey = p2pk CHR ''2''\<rparr>\<rparr>,
      \<lparr>out_amount = Number 49990000,
       out_scriptPublicKey = \<lparr>spk_version = 0, spk_scriptPublicKey = p2pk CHR ''1''\<rparr>\<rparr>]"
proof -
  have g: "getUtxos (demo_env us None) (addr CHR ''q'') = Some us" for us by simp
  have s: "selectInputs [coin 101000000] (100000000 + 10000) = Some ([coin 101000000], 101000000)"
    by (rule selectInputs_single) simp
  have h: "PrivateKey (demo_env [coin 101000000] None) ''key'' \<and>
     (\<forall>u\<in>set [coin 101000000]. accepts_entry (demo_env [coin 101000000] None) u) \<and>
     addressScript (demo_env [coin 101000000] None) (addr CHR ''p'') = Some (p2pk CHR ''2'') \<and>
     Output_ok (demo_env [coin 101000000] None) (p2pk CHR ''2'') (Number 100000000) \<and>
     (2000000 \<le> 101000000 - (100000000 + (10000 :: int)) \<longrightarrow>
        addressScript (demo_env [coin 101000000] None) (addr CHR ''q'') = Some (p2pk CHR ''1'') \<and>
        Output_ok (demo_env [coin 101000000] None) (p2pk CHR ''1'')
          (Number (101000000 - (100000000 + 10000)))) \<and>
     (\<forall>tx i. getSignature (demo_env [coin 101000000] None) ''key'' tx i \<noteq> None) \<and>
     (\<forall>p. postTransaction (demo_env [coin 101000000] None) p \<noteq> None)"
    using accepts_coin[of 101000000 "[coin 101000000]" None 0]
    by (simp add: Number_safe_natural coin_at_0)
  note A = change_output_iff_dust[OF demo_validate toSompi_1 toSompi_fee g s refl,
      THEN conjunct2, THEN mp, OF h]
  note B = change_output_iff_dust[OF demo_validate toSompi_1 toSompi_fee g demo_select refl,
      THEN conjunct1, THEN mp, OF demo_run_fee[of None]]
  from A B demo_run_fee[of None] show ?thesis by simp
qed




text \<open>
  C5. In every build that succeeds, when the library's signatures are 64 bytes in
  hexadecimal, there is one signed input per selected entry, and the signature script of
  each is \<^verbatim>\<open>41\<close>, the signature, \<^verbatim>\<open>01\<close>: it matches the pattern \<^verbatim>\<open>41<128 hex chars>01\<close> and
  is 66 bytes long (the prefix byte, 64 bytes of signature, the suffix byte).
\<close>

theorem signature_script:
  assumes "createTransaction env req = (t, Inr body)"
    and "validate req = Inr (sender, recipient, amt, f, key)"
    and "toSompi amt = Some amountToSend" and "toSompi f = Some feeAmount"
    and "getUtxos env sender = Some utxos"
    and "selectInputs utxos (amountToSend + feeAmount) = Some (inputs, inputSum)"
    and "\<forall>sk tx i sg. getSignature env sk tx i = Some sg \<longrightarrow>
           length sg = 128 \<and> set sg \<subseteq> set hex_digits"
  shows "\<exists>p. t = [NewPrivateKey key, GetUtxos sender] @ map Sign [0 ..< length inputs] @
               [PostTransaction p, GetBalance sender] \<and>
           length (rest_inputs (rest_transaction p)) = length inputs \<and>
           (\<forall>si\<in>set (rest_inputs (rest_transaction p)).
              (\<exists>sg. length sg = 128 \<and> signatureScript si = ''41'' @ sg @ ''01'') \<and>
              test signaturePattern (signatureScript si) \<and>
              byteLength (signatureScript si) = 66)"
  using assms(1-6) unfolding createTransaction_def
  by (clarsimp simp: andThen_eq_Inr lib_eq_Inr call_eq_Inr Let_def dustThreshold_eq
        mkRestApiJson_def
        split: option.splits prod.splits if_splits
        dest!: signInputs_scripts[OF assms(7)] addInputs_length)

theorem signature_script_witness:
  "map signatureScript (rest_inputs (rest_transaction (demo_payload 150000000 100000000 10000))) =
     [''41'' @ signature0 @ ''01''] \<and>
   length signature0 = 128 \<and>
   test signaturePattern (''41'' @ signature0 @ ''01'') \<and>
   byteLength (''41'' @ signature0 @ ''01'') = 66"
  using signature_script[OF demo_run_fee[of None] demo_validate toSompi_1 toSompi_fee _ demo_select
      demo_signatures]
  by (simp add: demo_payload_def mkRestApiJson_def signedInput_def signature0_def)

text \<open>
  The claim gives the length as 65 bytes: the script of the example build matches the
  pattern and is not 65 bytes long.
\<close>

theorem signature_script_counterexample:
  "createTransaction (demo_env [coin 150000000] None)
      (demo_request (Fin 1 0) (Fin 7378697629483821 (- 66))) =
     ([NewPrivateKey ''key'', GetUtxos (addr CHR ''q''), Sign 0,
       PostTransaction (demo_payload 150000000 100000000 10000), GetBalance (addr CHR ''q'')],
      Inr \<lparr>status = ''OK'', ok_transactionId = JString ''id'', ok_rawTransaction = JString ''raw'',
           transferredAmount = BigInt_toString 100000000,
           chargedAmount = BigInt_toString (100000000 + 10000),
           walletBalance = JNull\<rparr>) \<and>
   map signatureScript (rest_inputs (rest_transaction (demo_payload 150000000 100000000 10000))) =
     [''41'' @ signature0 @ ''01''] \<and>
   test signaturePattern (''41'' @ signature0 @ ''01'') \<and>
   byteLength (''41'' @ signature0 @ ''01'') \<noteq> 65"
proof -
  have l: "length signature0 = 128" by (simp add: signature0_def)
  have h: "set signature0 \<subseteq> set hex_digits" by (simp add: signature0_def hex_digits_def)
  from demo_run_fee[of None] demo_payload_scripts test_signaturePattern[OF l h]
    byteLength_script[OF l]
  show ?thesis by simp
qed

text \<open>
  C6. An address is accepted exactly when it is \<^verbatim>\<open>kaspa:\<close> followed by 61 to 63
  characters, each a lowercase letter \<^verbatim>\<open>a\<close> to \<^verbatim>\<open>z\<close> or a digit \<^verbatim>\<open>0\<close> to \<^verbatim>\<open>9\<close>; a sender
  or recipient address that is not accepted is answered with "Invalid sender address
  format" or "Invalid recipient address format".
\<close>

theorem address_format:
  "(test kaspaRegex s \<longleftrightarrow>
      (\<exists>p. s = ''kaspa:'' @ p \<and> 61 \<le> length p \<and> length p \<le> 63 \<and> set p \<subseteq> set lower_alnum)) \<and>
   (senderAddress req = Some sa \<and> recipientAddress req = Some ra \<and> amount req = Some amt \<and>
    fee req = Some f \<and> privateKey req = Some key \<and> sa \<noteq> [] \<and> ra \<noteq> [] \<and> key \<noteq> [] \<longrightarrow>
      (\<not> test kaspaRegex sa \<longrightarrow>
         createTransaction env req = ([], Inl (Error400 ''Invalid sender address format''))) \<and>
      (test kaspaRegex sa \<and> \<not> test kaspaRegex ra \<longrightarrow>
         createTransaction env req = ([], Inl (Error400 ''Invalid recipient address format''))))"
proof (intro conjI impI)
  show "test kaspaRegex s \<longleftrightarrow>
      (\<exists>p. s = ''kaspa:'' @ p \<and> 61 \<le> length p \<and> length p \<le> 63 \<and> set p \<subseteq> set lower_alnum)"
    by (rule kaspaRegex_iff)
next
  assume "senderAddress req = Some sa \<and> recipientAddress req = Some ra \<and> amount req = Some amt \<and>
    fee req = Some f \<and> privateKey req = Some key \<and> sa \<noteq> [] \<and> ra \<noteq> [] \<and> key \<noteq> []"
    and "\<not> test kaspaRegex sa"
  then have "validate req = Inl (Error400 ''Invalid sender address format'')"
    by (simp add: validate_def)
  then show "createTransaction env req = ([], Inl (Error400 ''Invalid sender address format''))"
    by (simp add: createTransaction_def andThen_Inl)
next
  assume "senderAddress req = Some sa \<and> recipientAddress req = Some ra \<and> amount req = Some amt \<and>
    fee req = Some f \<and> privateKey req = Some key \<and> sa \<noteq> [] \<and> ra \<noteq> [] \<and> key \<noteq> []"
    and "test kaspaRegex sa \<and> \<not> test kaspaRegex ra"
  then have "validate req = Inl (Error400 ''Invalid recipient address format'')"
    by (simp add: validate_def)
  then show "createTransaction env req = ([], Inl (Error400 ''Invalid recipient address format''))"
    by (simp add: createTransaction_def andThen_Inl)
qed

theorem address_format_witness:
  "test kaspaRegex (addr CHR ''q'') \<and>
   (\<exists>p. addr CHR ''q'' = ''kaspa:'' @ p \<and> 61 \<le> length p \<and> length p \<le> 63 \<and>
        set p \<subseteq> set lower_alnum) \<and>
   \<not> test kaspaRegex (addr CHR ''Q'') \<and>
   createTransaction (demo_env [coin 150000000] None) uppercase_request =
     ([], Inl (Error400 ''Invalid sender address format''))"
proof -
  have 1: "test kaspaRegex (addr CHR ''q'')" by (rule test_addr) (simp add: lower_alnum_def)
  have 2: "senderAddress uppercase_request = Some (addr CHR ''Q'') \<and>
    recipientAddress uppercase_request = Some (addr CHR ''p'') \<and>
    amount uppercase_request = Some (Fin 1 0) \<and> fee uppercase_request = Some (Fin 0 0) \<and>
    privateKey uppercase_request = Some ''key'' \<and> addr CHR ''Q'' \<noteq> [] \<and> addr CHR ''p'' \<noteq> [] \<and>
    ''key'' \<noteq> []"
    by (simp add: uppercase_request_def addr_def)
  from address_format[of "addr CHR ''q''" uppercase_request "addr CHR ''Q''" "addr CHR ''p''"
      "Fin 1 0" "Fin 0 0" "''key''" "demo_env [coin 150000000] None"] 1 2 not_test_upper
  show ?thesis by blast
qed

text \<open>
  The claim restricts the characters to a base-32 alphabet. The class \<^verbatim>\<open>[a-z0-9]\<close> has
  36 characters: an address of 61 letters \<^verbatim>\<open>b\<close>, which is not in the alphabet of the
  network's addresses, is accepted.
\<close>

theorem address_format_counterexample:
  "test kaspaRegex (addr CHR ''b'') \<and> \<not> spec_address (addr CHR ''b'') \<and>
   CHR ''b'' \<notin> set base32_alphabet"
proof -
  have 1: "test kaspaRegex (addr CHR ''b'')" by (rule test_addr) (simp add: lower_alnum_def)
  have 2: "CHR ''b'' \<notin> set base32_alphabet" by (simp add: base32_alphabet_def)
  then have "\<not> spec_address (addr CHR ''b'')"
    by (simp add: spec_address_def addr_def list_all_iff)
  with 1 2 show ?thesis by simp
qed



text \<open>
  C8. In the success response the transferred amount and the charged amount (amount
  plus fee) are the decimal strings of the BigInts; the wallet balance is the value the
  balance lookup returned, passed on as it is, and \<^verbatim>\<open>null\<close> when the lookup failed.
\<close>

theorem response_amounts:
  assumes "createTransaction env req = (t, Inr body)"
    and "validate req = Inr (sender, recipient, amt, f, key)"
    and "toSompi amt = Some amountToSend" and "toSompi f = Some feeAmount"
  shows "transferredAmount body = BigInt_toString amountToSend \<and>
         decimal_string (transferredAmount body) \<and>
         chargedAmount body = BigInt_toString (amountToSend + feeAmount) \<and>
         decimal_string (chargedAmount body) \<and>
         walletBalance body = (case getBalance env sender of None \<Rightarrow> JNull | Some b \<Rightarrow> b)"
  using assms unfolding createTransaction_def
  by (clarsimp simp: andThen_eq_Inr lib_eq_Inr call_eq_Inr Let_def dustThreshold_eq
        decimal_BigInt_toString balanceOf_def
        split: option.splits prod.splits if_splits)

theorem response_amounts_witness:
  "transferredAmount
     \<lparr>status = ''OK'', ok_transactionId = JString ''id'', ok_rawTransaction = JString ''raw'',
      transferredAmount = BigInt_toString 100000000,
      chargedAmount = BigInt_toString (100000000 + 10000),
      walletBalance = JNumber (Fin 5 0)\<rparr> = BigInt_toString 100000000 \<and>
   decimal_string (BigInt_toString 100000000) \<and>
   decimal_string (BigInt_toString (100000000 + 10000)) \<and>
   JNumber (Fin 5 0) =
     (case getBalance (demo_env [coin 150000000] (Some (JNumber (Fin 5 0)))) (addr CHR ''q'') of
        None \<Rightarrow> JNull | Some b \<Rightarrow> b)"
  using response_amounts[OF demo_run_fee[of "Some (JNumber (Fin 5 0))"] demo_validate
      toSompi_1 toSompi_fee]
  by simp

text \<open>
  The claim that the wallet balance is a decimal string fails: when the balance lookup
  fails the build still succeeds, and the balance of the response is \<^verbatim>\<open>null\<close>.
\<close>

theorem response_amounts_counterexample:
  "createTransaction (demo_env [coin 150000000] None)
      (demo_request (Fin 1 0) (Fin 7378697629483821 (- 66))) =
     ([NewPrivateKey ''key'', GetUtxos (addr CHR ''q''), Sign 0,
       PostTransaction (demo_payload 150000000 100000000 10000), GetBalance (addr CHR ''q'')],
      Inr \<lparr>status = ''OK'', ok_transactionId = JString ''id'', ok_rawTransaction = JString ''raw'',
           transferredAmount = BigInt_toString 100000000,
           chargedAmount = BigInt_toString (100000000 + 10000),
           walletBalance = JNull\<rparr>) \<and>
   \<not> json_decimal_string JNull"
  using demo_run_fee[of None] by (simp add: json_decimal_string_def)

text \<open>
  C9. In the handler with one input the change output is made without a test of the
  change. Every payload that is sent has exactly two outputs: the recipient output, and a
  change output to the sender with the amount \<^verbatim>\<open>Number(changeAmount)\<close>, where the change is
  the amount of the selected entry minus amount and fee. When the calls of the library
  and of the network succeed the payload is sent whatever amount the library has taken as
  the change, zero and the amounts below the dust threshold of the other handler
  included. The library takes a natural number below \<open>2 ^ 53\<close> as an amount and throws on
  every other Number (the hypothesis \<open>Output_checked\<close>): the change of a payload that is
  sent is not negative, and with a negative change the handler answers 500 and nothing is
  signed or sent.
\<close>

theorem unconditional_change_output:
  assumes "validate req = Inr (sender, recipient, amt, f, key)"
    and "getUtxos env sender = Some utxos"
    and "find suitable utxos = Some selectedUtxo"
    and "toSompi amt = Some amountToSend" and "toSompi f = Some feeAmount"
    and "changeAmount = utxo_amount selectedUtxo - amountToSend - feeAmount"
    and "Output_checked env"
  shows
   "(PostTransaction p \<in> set (fst (createTransaction_index env req)) \<longrightarrow>
       0 \<le> changeAmount \<and>
       length (rest_outputs (rest_transaction p)) = 2 \<and>
       (\<exists>rs ss. addressScript env recipient = Some rs \<and> addressScript env sender = Some ss \<and>
          rest_outputs (rest_transaction p) =
            [\<lparr>out_amount = Number amountToSend,
              out_scriptPublicKey = \<lparr>spk_version = 0, spk_scriptPublicKey = rs\<rparr>\<rparr>,
             \<lparr>out_amount = Number changeAmount,
              out_scriptPublicKey = \<lparr>spk_version = 0, spk_scriptPublicKey = ss\<rparr>\<rparr>])) \<and>
    (PrivateKey env key \<and> accepts_entry env selectedUtxo \<and>
     addressScript env recipient = Some rs' \<and> Output_ok env rs' (Number amountToSend) \<and>
     addressScript env sender = Some ss' \<and> Output_ok env ss' (Number changeAmount) \<and>
     (\<forall>tx. getSignature env key tx 0 \<noteq> None) \<and> (\<forall>q. postTransaction env q \<noteq> None) \<longrightarrow>
       (\<exists>t body p'.
          createTransaction_index env req = (t, Inr body) \<and> PostTransaction p' \<in> set t \<and>
          rest_outputs (rest_transaction p') =
            [\<lparr>out_amount = Number amountToSend,
              out_scriptPublicKey = \<lparr>spk_version = 0, spk_scriptPublicKey = rs'\<rparr>\<rparr>,
             \<lparr>out_amount = Number changeAmount,
              out_scriptPublicKey = \<lparr>spk_version = 0, spk_scriptPublicKey = ss'\<rparr>\<rparr>])) \<and>
    (PrivateKey env key \<and> changeAmount < 0 \<longrightarrow>
       snd (createTransaction_index env req) = Inl Error500 \<and>
       (\<forall>q. PostTransaction q \<notin> set (fst (createTransaction_index env req))) \<and>
       (\<forall>i. Sign i \<notin> set (fst (createTransaction_index env req))))"
proof (intro conjI impI)
  assume m: "PostTransaction p \<in> set (fst (createTransaction_index env req))"
  from index_outputs[OF m assms(1-6)] obtain rs ss where
    rs: "addressScript env recipient = Some rs" and ss: "addressScript env sender = Some ss"
    and ok: "Output_ok env ss (Number changeAmount)"
    and o: "rest_outputs (rest_transaction p) =
            [\<lparr>out_amount = Number amountToSend,
              out_scriptPublicKey = \<lparr>spk_version = 0, spk_scriptPublicKey = rs\<rparr>\<rparr>,
             \<lparr>out_amount = Number changeAmount,
              out_scriptPublicKey = \<lparr>spk_version = 0, spk_scriptPublicKey = ss\<rparr>\<rparr>]"
    by (elim exE conjE) (rule that)
  from Output_checked_Number(1)[OF assms(7) ok] show "0 \<le> changeAmount" .
  from o show "length (rest_outputs (rest_transaction p)) = 2" by simp
  from rs ss o show "\<exists>rs ss. addressScript env recipient = Some rs \<and>
          addressScript env sender = Some ss \<and>
          rest_outputs (rest_transaction p) =
            [\<lparr>out_amount = Number amountToSend,
              out_scriptPublicKey = \<lparr>spk_version = 0, spk_scriptPublicKey = rs\<rparr>\<rparr>,
             \<lparr>out_amount = Number changeAmount,
              out_scriptPublicKey = \<lparr>spk_version = 0, spk_scriptPublicKey = ss\<rparr>\<rparr>]"
    by (intro exI conjI)
next
  assume a: "PrivateKey env key \<and> accepts_entry env selectedUtxo \<and>
     addressScript env recipient = Some rs' \<and> Output_ok env rs' (Number amountToSend) \<and>
     addressScript env sender = Some ss' \<and> Output_ok env ss' (Number changeAmount) \<and>
     (\<forall>tx. getSignature env key tx 0 \<noteq> None) \<and> (\<forall>q. postTransaction env q \<noteq> None)"
  then have k: "PrivateKey env key"
    and i: "accepts_entry env selectedUtxo"
    and r: "addressScript env recipient = Some rs'" "Output_ok env rs' (Number amountToSend)"
    and c: "addressScript env sender = Some ss'"
      "Output_ok env ss' (Number (utxo_amount selectedUtxo - amountToSend - feeAmount))"
    and sg: "\<forall>tx. getSignature env key tx 0 \<noteq> None"
    and po: "\<forall>q. postTransaction env q \<noteq> None"
    unfolding assms(6) by simp_all
  from newInput_Some[OF i] obtain txInput where ni: "newInput env selectedUtxo = Some txInput"
    by simp
  define txOutput where "txOutput = \<lparr>script = rs', satoshis = Number amountToSend\<rparr>"
  define txChange where "txChange =
    \<lparr>script = ss', satoshis = Number (utxo_amount selectedUtxo - amountToSend - feeAmount)\<rparr>"
  have pr: "payTo env recipient (Number amountToSend) = Some txOutput"
    unfolding txOutput_def using r by (rule payTo_Some)
  have pc: "payTo env sender (Number (utxo_amount selectedUtxo - amountToSend - feeAmount)) =
      Some txChange"
    unfolding txChange_def using c by (rule payTo_Some)
  from sg obtain sig where gs: "getSignature env key
      \<lparr>tx_version = 0, tx_inputs = [txInput], tx_outputs = [txOutput, txChange]\<rparr> 0 = Some sig"
    by fastforce
  define p' where "p' = mkRestApiJson 0 [signedInput txInput sig]
           [\<lparr>out_amount = Number amountToSend,
             out_scriptPublicKey = \<lparr>spk_version = 0, spk_scriptPublicKey = script txOutput\<rparr>\<rparr>,
            \<lparr>out_amount = Number (utxo_amount selectedUtxo - amountToSend - feeAmount),
             out_scriptPublicKey = \<lparr>spk_version = 0, spk_scriptPublicKey = script txChange\<rparr>\<rparr>]"
  from po obtain txResponse where pt: "postTransaction env p' = Some txResponse" by fastforce
  note run = index_run[OF assms(1) k assms(2,3) ni assms(4,5) pr pc gs p'_def pt]
  have o: "rest_outputs (rest_transaction p') =
            [\<lparr>out_amount = Number amountToSend,
              out_scriptPublicKey = \<lparr>spk_version = 0, spk_scriptPublicKey = rs'\<rparr>\<rparr>,
             \<lparr>out_amount = Number changeAmount,
              out_scriptPublicKey = \<lparr>spk_version = 0, spk_scriptPublicKey = ss'\<rparr>\<rparr>]"
    by (simp add: p'_def mkRestApiJson_def txOutput_def txChange_def assms(6))
  obtain t body where tb: "createTransaction_index env req = (t, Inr body)"
    "PostTransaction p' \<in> set t"
    by (rule that[OF run]) simp
  from tb o show "\<exists>t body p'.
          createTransaction_index env req = (t, Inr body) \<and> PostTransaction p' \<in> set t \<and>
          rest_outputs (rest_transaction p') =
            [\<lparr>out_amount = Number amountToSend,
              out_scriptPublicKey = \<lparr>spk_version = 0, spk_scriptPublicKey = rs'\<rparr>\<rparr>,
             \<lparr>out_amount = Number changeAmount,
              out_scriptPublicKey = \<lparr>spk_version = 0, spk_scriptPublicKey = ss'\<rparr>\<rparr>]"
    by blast
next
  assume a: "PrivateKey env key \<and> changeAmount < 0"
  then have k: "PrivateKey env key"
    and n: "utxo_amount selectedUtxo - amountToSend - feeAmount < 0"
    unfolding assms(6) by simp_all
  note run = index_negative_change[OF assms(1) k assms(2-5) n assms(7)]
  from run show "snd (createTransaction_index env req) = Inl Error500" by simp
  from run show "\<forall>q. PostTransaction q \<notin> set (fst (createTransaction_index env req))" by simp
  from run show "\<forall>i. Sign i \<notin> set (fst (createTransaction_index env req))" by simp
qed

text \<open>
  Three builds of the example, with a request of 100000000 units and no fee: the selected
  entry has just this amount and the change output of 0 is sent; the entry leaves a
  change of 500000 and the change output is sent; the entry is too small and the handler
  answers 500.
\<close>

theorem unconditional_change_output_witness:
  "(\<exists>t body p'.
      createTransaction_index (demo_env [coin 100000000] None) (demo_request (Fin 1 0) (Fin 0 0)) =
        (t, Inr body) \<and>
      PostTransaction p' \<in> set t \<and>
      rest_outputs (rest_transaction p') =
        [\<lparr>out_amount = Number 100000000,
          out_scriptPublicKey = \<lparr>spk_version = 0, spk_scriptPublicKey = p2pk CHR ''2''\<rparr>\<rparr>,
         \<lparr>out_amount = Number 0,
          out_scriptPublicKey = \<lparr>spk_version = 0, spk_scriptPublicKey = p2pk CHR ''1''\<rparr>\<rparr>]) \<and>
   PostTransaction (demo_payload_index 0 100500000 100000000 0) \<in>
     set (fst (createTransaction_index (demo_env [coin 100500000] None)
       (demo_request (Fin 1 0) (Fin 0 0)))) \<and>
   length (rest_outputs (rest_transaction (demo_payload_index 0 100500000 100000000 0))) = 2 \<and>
   rest_outputs (rest_transaction (demo_payload_index 0 100500000 100000000 0)) =
     [\<lparr>out_amount = Number 100000000,
       out_scriptPublicKey = \<lparr>spk_version = 0, spk_scriptPublicKey = p2pk CHR ''2''\<rparr>\<rparr>,
      \<lparr>out_amount = Number 500000,
       out_scriptPublicKey = \<lparr>spk_version = 0, spk_scriptPublicKey = p2pk CHR ''1''\<rparr>\<rparr>] \<and>
   snd (createTransaction_index (demo_env [coin 100000] None) (demo_request (Fin 1 0) (Fin 0 0))) =
     Inl Error500 \<and>
   (\<forall>q. PostTransaction q \<notin>
      set (fst (createTransaction_index (demo_env [coin 100000] None)
        (demo_request (Fin 1 0) (Fin 0 0)))))"
proof -
  have v: "validate (demo_request (Fin 1 0) (Fin 0 0)) =
      Inr (addr CHR ''q'', addr CHR ''p'', Fin 1 0, Fin 0 0, ''key'')"
    by (rule validate_demo) simp_all
  have g: "getUtxos (demo_env us None) (addr CHR ''q'') = Some us" for us by simp
  have f0: "find suitable [coin 100000000] = Some (coin 100000000)" by (rule find_single) simp
  have f1: "find suitable [coin 100500000] = Some (coin 100500000)" by (rule find_single) simp
  have f2: "find suitable [coin 100000] = Some (coin 100000)" by (rule find_single) simp
  have h0: "PrivateKey (demo_env [coin 100000000] None) ''key'' \<and>
     accepts_entry (demo_env [coin 100000000] None) (coin 100000000) \<and>
     addressScript (demo_env [coin 100000000] None) (addr CHR ''p'') = Some (p2pk CHR ''2'') \<and>
     Output_ok (demo_env [coin 100000000] None) (p2pk CHR ''2'') (Number 100000000) \<and>
     addressScript (demo_env [coin 100000000] None) (addr CHR ''q'') = Some (p2pk CHR ''1'') \<and>
     Output_ok (demo_env [coin 100000000] None) (p2pk CHR ''1'')
       (Number (utxo_amount (coin 100000000) - 100000000 - 0)) \<and>
     (\<forall>tx. getSignature (demo_env [coin 100000000] None) ''key'' tx 0 \<noteq> None) \<and>
     (\<forall>q. postTransaction (demo_env [coin 100000000] None) q \<noteq> None)"
    using accepts_coin[of 100000000 "[coin 100000000]" None 0]
    by (simp add: Number_safe_natural coin_at_0)
  note A = unconditional_change_output[OF v g f0 toSompi_1 toSompi_0 refl demo_checked,
      THEN conjunct2, THEN conjunct1, THEN mp, OF h0]
  have m: "PostTransaction (demo_payload_index 0 100500000 100000000 0) \<in>
     set (fst (createTransaction_index (demo_env [coin 100500000] None)
       (demo_request (Fin 1 0) (Fin 0 0))))"
  proof -
    have "find suitable [coin 100500000] = Some (coin_at 0 100500000)"
      unfolding coin_at_0 by (rule f1)
    from demo_run_index[OF _ _ toSompi_1 toSompi_0 this, where bal = None]
    show ?thesis by simp
  qed
  note B = unconditional_change_output[OF v g f1 toSompi_1 toSompi_0 refl demo_checked,
      THEN conjunct1, THEN mp, OF m]
  have h2: "PrivateKey (demo_env [coin 100000] None) ''key'' \<and>
     utxo_amount (coin 100000) - 100000000 - 0 < 0" by simp
  note C = unconditional_change_output[OF v g f2 toSompi_1 toSompi_0 refl demo_checked,
      THEN conjunct2, THEN conjunct2, THEN mp, OF h2]
  from A m B C show ?thesis by simp
qed

text \<open>
  The claim has a change output added, and a payload of two outputs sent, also when the
  change is negative. With an entry of 100000 units and a request of 100000000 the
  handler selects the entry and logs the change of -99900000; the library throws when
  the change output is made, nothing is signed or sent, and the handler answers 500.
\<close>

theorem unconditional_change_output_counterexample:
  "find suitable [coin 100000] = Some (coin 100000) \<and>
   toSompi (Fin 1 0) = Some 100000000 \<and> toSompi (Fin 0 0) = Some 0 \<and>
   utxo_amount (coin 100000) - 100000000 - 0 < 0 \<and>
   createTransaction_index (demo_env [coin 100000] None) (demo_request (Fin 1 0) (Fin 0 0)) =
     ([NewPrivateKey ''key'', GetUtxos (addr CHR ''q''),
       ConsoleLog ''UTXO amount (sompi):'' 100000, ConsoleLog ''AmountToSend:'' 100000000,
       ConsoleLog ''FeeAmount:'' 0, ConsoleLog ''ChangeAmount:'' (- 99900000)],
      Inl Error500)"
proof -
  have f: "find suitable [coin 100000] = Some (coin_at 0 100000)"
    unfolding coin_at_0 by (rule find_single) simp
  have f': "find suitable [coin 100000] = Some (coin 100000)" by (rule find_single) simp
  have "createTransaction_index (demo_env [coin 100000] None) (demo_request (Fin 1 0) (Fin 0 0)) =
     ([NewPrivateKey ''key'', GetUtxos (addr CHR ''q'')] @ demo_log 100000 100000000 0,
      Inl Error500)"
    by (rule demo_run_index_negative[OF _ _ toSompi_1 toSompi_0 f]) simp_all
  with f' toSompi_1 toSompi_0 show ?thesis by (simp add: demo_log_def)
qed




end
